theory Spec2Isabelle
  imports Main "HOL-Library.AList"
begin

section \<open>JavaScript strings\<close>

text \<open>
  The generator (\<^verbatim>\<open>scripts/generate-api-types.js\<close>) works on JavaScript strings. A string is
  modelled as a \<^typ>\<open>char list\<close>; a character is a code unit below 256. Indices are
  natural numbers, and the result \<^verbatim>\<open>-1\<close> of \<^verbatim>\<open>indexOf\<close> is \<^term>\<open>None\<close>.
\<close>

definition isSpace :: "char \<Rightarrow> bool" where
  \<comment> \<open>the white space of \<^verbatim>\<open>trim()\<close> and of \<^verbatim>\<open>\s\<close>: TAB, LF, VT, FF, CR, SP, NBSP\<close>
  "isSpace c = (c \<in> set [CHR 0x09, CHR 0x0A, CHR 0x0B, CHR 0x0C, CHR 0x0D, CHR '' '', CHR 0xA0])"

definition trim :: "string \<Rightarrow> string" where
  "trim s = rev (dropWhile isSpace (rev (dropWhile isSpace s)))"

definition startsWith :: "string \<Rightarrow> string \<Rightarrow> bool" where
  "startsWith s p = (take (length p) s = p)"

definition endsWith :: "string \<Rightarrow> string \<Rightarrow> bool" where
  "endsWith s p = (length p \<le> length s \<and> drop (length s - length p) s = p)"

definition occursAt :: "string \<Rightarrow> string \<Rightarrow> nat \<Rightarrow> bool" where
  "occursAt s sub i = (i + length sub \<le> length s \<and> take (length sub) (drop i s) = sub)"

definition indexOf :: "string \<Rightarrow> string \<Rightarrow> nat option" where
  "indexOf s sub = find (occursAt s sub) [0..<Suc (length s)]"

definition lastIndexOf :: "string \<Rightarrow> string \<Rightarrow> nat option" where
  "lastIndexOf s sub = find (occursAt s sub) (rev [0..<Suc (length s)])"

definition includesStr :: "string \<Rightarrow> string \<Rightarrow> bool" where
  \<comment> \<open>\<^verbatim>\<open>s.includes(sub)\<close>\<close>
  "includesStr s sub = (indexOf s sub \<noteq> None)"

definition slice :: "string \<Rightarrow> int \<Rightarrow> int \<Rightarrow> string" where
  \<comment> \<open>\<^verbatim>\<open>s.slice(a, b)\<close>: a negative index counts from the end, both are clamped\<close>
  "slice s a b =
     (let n = int (length s);
          i = (if a < 0 then max (n + a) 0 else min a n);
          j = (if b < 0 then max (n + b) 0 else min b n)
      in take (nat (j - i)) (drop (nat i) s))"

definition sliceFrom :: "string \<Rightarrow> int \<Rightarrow> string" where
  \<comment> \<open>\<^verbatim>\<open>s.slice(a)\<close>\<close>
  "sliceFrom s a = slice s a (int (length s))"

fun splitOn :: "char \<Rightarrow> string \<Rightarrow> string list" where
  \<comment> \<open>\<^verbatim>\<open>s.split(c)\<close> for a separator of one character\<close>
  "splitOn c [] = [[]]"
| "splitOn c (x # xs) =
     (if x = c then [] # splitOn c xs
      else (case splitOn c xs of [] \<Rightarrow> [[x]] | p # ps \<Rightarrow> (x # p) # ps))"

fun join :: "string \<Rightarrow> string list \<Rightarrow> string" where
  "join sep [] = []"
| "join sep [x] = x"
| "join sep (x # y # ys) = x @ sep @ join sep (y # ys)"

definition inRange :: "char \<Rightarrow> char \<Rightarrow> char \<Rightarrow> bool" where
  "inRange lo hi c = ((of_char lo :: nat) \<le> of_char c \<and> (of_char c :: nat) \<le> of_char hi)"

definition toLowerChar :: "char \<Rightarrow> char" where
  "toLowerChar c =
     (if inRange CHR ''A'' CHR ''Z'' c \<or> (inRange CHR 0xC0 CHR 0xDE c \<and> c \<noteq> CHR 0xD7)
      then char_of (of_char c + (32 :: nat)) else c)"

definition toLowerCase :: "string \<Rightarrow> string" where
  "toLowerCase s = map toLowerChar s"

fun uniq :: "'a list \<Rightarrow> 'a list \<Rightarrow> 'a list" where
  \<comment> \<open>the elements of a \<^verbatim>\<open>Set\<close> in insertion order: \<^verbatim>\<open>[...new Set(xs)]\<close> is \<open>uniq [] xs\<close>\<close>
  "uniq seen [] = seen"
| "uniq seen (x # xs) = (if x \<in> set seen then uniq seen xs else uniq (seen @ [x]) xs)"

definition truthy :: "string option \<Rightarrow> bool" where
  \<comment> \<open>a value that is \<^verbatim>\<open>null\<close>, \<^verbatim>\<open>undefined\<close> or a string: only a non-empty string is truthy\<close>
  "truthy v = (case v of None \<Rightarrow> False | Some s \<Rightarrow> s \<noteq> [])"

section \<open>Regular expressions\<close>

text \<open>
  The regular expressions of the source are values of \<open>regex\<close>, matched by a backtracking
  matcher with the priorities of the JavaScript one: \<open>rmatch r s c\<close> lists, in the order
  in which backtracking tries them, the ways \<open>r\<close> matches a prefix of \<open>s\<close>, each as the
  rest of the input and the captures. A leading \<^verbatim>\<open>^\<close> is modelled by matching at offset
  0 (\<open>rx_at\<close>), its absence by the leftmost search (\<open>rx_search\<close>).
\<close>

datatype citem = One char | Range char char | Word | Space

definition isWord :: "char \<Rightarrow> bool" where
  "isWord c = (inRange CHR ''a'' CHR ''z'' c \<or> inRange CHR ''A'' CHR ''Z'' c
      \<or> inRange CHR ''0'' CHR ''9'' c \<or> c = CHR ''_'')"

fun inItem :: "char \<Rightarrow> citem \<Rightarrow> bool" where
  "inItem c (One d) = (c = d)"
| "inItem c (Range lo hi) = inRange lo hi c"
| "inItem c Word = isWord c"
| "inItem c Space = isSpace c"

definition inClass :: "citem list \<Rightarrow> char \<Rightarrow> bool" where
  "inClass cls c = list_ex (inItem c) cls"

datatype regex =
    Eps
  | Lit string
  | Chars "citem list"
  | NotChars "citem list"
  | Seq regex regex
  | Alt regex regex
  | Star regex
  | LazyStar regex
  | Group nat regex
  | Eos

type_synonym caps = "(nat \<times> string) list"

fun rmatch :: "regex \<Rightarrow> string \<Rightarrow> caps \<Rightarrow> (string \<times> caps) list" where
  "rmatch Eps s c = [(s, c)]"
| "rmatch (Lit l) s c = (if take (length l) s = l then [(drop (length l) s, c)] else [])"
| "rmatch (Chars cls) s c =
     (case s of [] \<Rightarrow> [] | x # xs \<Rightarrow> if inClass cls x then [(xs, c)] else [])"
| "rmatch (NotChars cls) s c =
     (case s of [] \<Rightarrow> [] | x # xs \<Rightarrow> if inClass cls x then [] else [(xs, c)])"
| "rmatch (Seq a b) s c = concat (map (\<lambda>p. rmatch b (fst p) (snd p)) (rmatch a s c))"
| "rmatch (Alt a b) s c = rmatch a s c @ rmatch b s c"
| "rmatch (Star r) s c =
     concat (map (\<lambda>p. if length (fst p) < length s then rmatch (Star r) (fst p) (snd p) else [])
                 (rmatch r s c)) @ [(s, c)]"
| "rmatch (LazyStar r) s c =
     (s, c) # concat (map (\<lambda>p. if length (fst p) < length s
                                  then rmatch (LazyStar r) (fst p) (snd p) else [])
                          (rmatch r s c))"
| "rmatch (Group n r) s c =
     map (\<lambda>p. (fst p, (n, take (length s - length (fst p)) s) # snd p)) (rmatch r s c)"
| "rmatch Eos s c = (if s = [] then [(s, c)] else [])"

declare rmatch.simps(7,8) [simp del]

definition Plus1 :: "regex \<Rightarrow> regex" where
  \<comment> \<open>\<^verbatim>\<open>r+\<close>\<close>
  "Plus1 r = Seq r (Star r)"

definition Opt :: "regex \<Rightarrow> regex" where
  \<comment> \<open>\<^verbatim>\<open>r?\<close>\<close>
  "Opt r = Alt r Eps"

definition seqs :: "regex list \<Rightarrow> regex" where
  "seqs rs = foldr Seq rs Eps"

definition anyChar :: regex where
  \<comment> \<open>\<^verbatim>\<open>.\<close>: any character but a line terminator\<close>
  "anyChar = NotChars [One CHR 0x0A, One CHR 0x0D]"

definition rx_at :: "regex \<Rightarrow> string \<Rightarrow> (string \<times> caps) option" where
  "rx_at r s = (case rmatch r s [] of [] \<Rightarrow> None | p # _ \<Rightarrow> Some p)"

fun rx_search :: "regex \<Rightarrow> string \<Rightarrow> (nat \<times> string \<times> caps) option" where
  \<comment> \<open>the index of the leftmost match, the input after it, the captures\<close>
  "rx_search r [] = (case rx_at r [] of None \<Rightarrow> None | Some p \<Rightarrow> Some (0, p))"
| "rx_search r (x # xs) =
     (case rx_at r (x # xs) of
        Some p \<Rightarrow> Some (0, p)
      | None \<Rightarrow> (case rx_search r xs of None \<Rightarrow> None | Some (i, p) \<Rightarrow> Some (Suc i, p)))"

definition grp :: "caps \<Rightarrow> nat \<Rightarrow> string" where
  \<comment> \<open>capture \<open>n\<close> of a match; every group read by the source takes part in its match\<close>
  "grp c n = (case map_of c n of None \<Rightarrow> [] | Some t \<Rightarrow> t)"

datatype repl = Txt string | Ref nat

fun expand :: "repl list \<Rightarrow> caps \<Rightarrow> string" where
  \<comment> \<open>a replacement string, \<^verbatim>\<open>$n\<close> standing for capture \<open>n\<close>\<close>
  "expand [] c = []"
| "expand (Txt t # rs) c = t @ expand rs c"
| "expand (Ref n # rs) c = grp c n @ expand rs c"

definition replaceAt :: "regex \<Rightarrow> repl list \<Rightarrow> string \<Rightarrow> string" where
  \<comment> \<open>\<^verbatim>\<open>s.replace(/^r/, t)\<close>\<close>
  "replaceAt r t s = (case rx_at r s of None \<Rightarrow> s | Some (rest, c) \<Rightarrow> expand t c @ rest)"

definition replaceFirst :: "regex \<Rightarrow> repl list \<Rightarrow> string \<Rightarrow> string" where
  \<comment> \<open>\<^verbatim>\<open>s.replace(/r/, t)\<close>\<close>
  "replaceFirst r t s =
     (case rx_search r s of None \<Rightarrow> s | Some (i, rest, c) \<Rightarrow> take i s @ expand t c @ rest)"

section \<open>Type conversion\<close>

definition isOpener :: "char \<Rightarrow> bool" where
  "isOpener ch = (ch \<in> set ''([{<'')"

definition isCloser :: "char \<Rightarrow> bool" where
  "isCloser ch = (ch \<in> set '')]}>'')"

fun splitTop :: "char \<Rightarrow> string \<Rightarrow> string list \<Rightarrow> string \<Rightarrow> int \<Rightarrow> string list" where
  "splitTop sep [] parts current depth =
     (if trim current \<noteq> [] then parts @ [trim current] else parts)"
| "splitTop sep (ch # cs) parts current depth =
     (if isOpener ch then splitTop sep cs parts (current @ [ch]) (depth + 1)
      else if isCloser ch then splitTop sep cs parts (current @ [ch]) (depth - 1)
      else if ch = sep \<and> depth = 0 then splitTop sep cs (parts @ [trim current]) [] depth
      else splitTop sep cs parts (current @ [ch]) depth)"

definition splitUnion :: "string \<Rightarrow> string list" where
  "splitUnion t = splitTop CHR ''|'' t [] [] 0"

definition splitByComma :: "string \<Rightarrow> string list" where
  "splitByComma str = splitTop CHR '','' str [] [] 0"

fun findParenLoop :: "string \<Rightarrow> nat \<Rightarrow> int \<Rightarrow> nat option" where
  "findParenLoop [] i depth = None"
| "findParenLoop (ch # cs) i depth =
     (let d1 = (if ch = CHR ''('' then depth + 1 else depth);
          d2 = (if ch = CHR '')'' then d1 - 1 else d1)
      in if d2 = 0 then Some i else findParenLoop cs (Suc i) d2)"

definition findMatchingParen :: "string \<Rightarrow> nat \<Rightarrow> nat option" where
  "findMatchingParen str start = findParenLoop (drop start str) start 0"

record param =
  p_name :: string
  p_type :: string
  p_optional :: bool
  p_isVararg :: bool

definition parseParam :: "string \<Rightarrow> param option" where
  "parseParam part =
     (let trimmed = trim part in
      if trimmed = [] then None
      else if startsWith trimmed ''...'' then
        (case indexOf trimmed '':'' of
           Some colonIdx \<Rightarrow>
             Some \<lparr>p_name = ''...args'',
                   p_type = trim (sliceFrom trimmed (int colonIdx + 1)) @ ''[]'',
                   p_optional = False, p_isVararg = True\<rparr>
         | None \<Rightarrow>
             Some \<lparr>p_name = ''...args'', p_type = ''any[]'', p_optional = False, p_isVararg = True\<rparr>)
      else
        (case indexOf trimmed '':'' of
           Some colonIdx \<Rightarrow>
             (let name = trim (slice trimmed 0 (int colonIdx));
                  type = trim (sliceFrom trimmed (int colonIdx + 1))
              in Some \<lparr>p_name = (if endsWith name ''?'' then slice name 0 (-1) else name),
                       p_type = (if endsWith type ''?'' then slice type 0 (-1) else type),
                       p_optional = (endsWith name ''?'' \<or> endsWith type ''?''),
                       p_isVararg = False\<rparr>)
         | None \<Rightarrow>
             Some \<lparr>p_name = trimmed, p_type = ''any'', p_optional = False, p_isVararg = False\<rparr>))"

definition parseParams :: "string \<Rightarrow> param list" where
  "parseParams paramsStr =
     (if trim paramsStr = [] then [] else List.map_filter parseParam (splitByComma paramsStr))"

definition reserved :: "string list" where
  "reserved = [''break'', ''case'', ''catch'', ''class'', ''const'', ''continue'', ''debugger'',
    ''default'', ''delete'', ''do'', ''else'', ''enum'', ''export'', ''extends'', ''false'',
    ''finally'', ''for'', ''function'', ''if'', ''import'', ''in'', ''instanceof'', ''new'',
    ''null'', ''return'', ''super'', ''switch'', ''this'', ''throw'', ''true'', ''try'',
    ''typeof'', ''var'', ''void'', ''while'', ''with'', ''yield'']"

definition sanitizeParamName :: "string \<Rightarrow> string" where
  "sanitizeParamName name = (if name \<in> set reserved then ''_'' @ name else name)"

definition stripAt :: "string \<Rightarrow> string \<Rightarrow> string" where
  "stripAt s mark = (case indexOf s mark of None \<Rightarrow> s | Some idx \<Rightarrow> trim (slice s 0 (int idx)))"

definition nilSuffixRe :: regex where
  "nilSuffixRe = seqs [Lit ''|'', Star (Chars [Space]), Lit ''nil'', Eos]"

definition arrayRe :: regex where
  "arrayRe = seqs [Group 1 (Plus1 anyChar), Lit ''[]'', Eos]"

definition descRe :: regex where
  "descRe = seqs [Lit '' '', Chars [Range CHR ''A'' CHR ''Z''], Chars [Range CHR ''a'' CHR ''z'']]"

definition cutDesc :: "string \<Rightarrow> string" where
  "cutDesc s = (case rx_search descRe s of None \<Rightarrow> s | Some (idx, m) \<Rightarrow> trim (slice s 0 (int idx)))"

definition cleanType :: "string \<Rightarrow> string" where
  "cleanType luaType = stripAt (stripAt (trim luaType) '' --'') ''  #''"

definition returnStrOf :: "string \<Rightarrow> string" where
  "returnStrOf rest = cutDesc (stripAt (trim (sliceFrom rest 1)) '' --'')"


subsection \<open>Lengths: what the translator passes on is shorter than what it was given\<close>

lemma length_trim_le: "length (trim s) \<le> length s"
  unfolding trim_def
  by (metis length_dropWhile_le length_rev order_trans)

lemma length_slice_le: "length (slice s a b) \<le> length s"
proof -
  have "length (take k (drop i s)) \<le> length s" for k i by simp
  then show ?thesis unfolding slice_def Let_def .
qed

lemma length_sliceFrom_le: "length (sliceFrom s a) \<le> length s"
  by (simp add: sliceFrom_def length_slice_le)

lemma length_slice_butlast: "s \<noteq> [] \<Longrightarrow> 0 \<le> a \<Longrightarrow> length (slice s a (-1)) < length s"
  by (cases s) (auto simp add: slice_def Let_def)

lemma length_sliceFrom_pos: "s \<noteq> [] \<Longrightarrow> 0 < a \<Longrightarrow> length (sliceFrom s a) < length s"
  by (cases s) (auto simp add: sliceFrom_def slice_def Let_def)

lemma length_stripAt_le: "length (stripAt s m) \<le> length s"
  by (auto simp add: stripAt_def split: option.splits intro: order_trans[OF length_trim_le] length_slice_le)

lemma length_cleanType_le: "length (cleanType s) \<le> length s"
  unfolding cleanType_def
  by (meson length_stripAt_le length_trim_le order_trans)

lemma startsWith_nonempty: "startsWith s p \<Longrightarrow> p \<noteq> [] \<Longrightarrow> s \<noteq> []"
  by (auto simp add: startsWith_def)

lemma endsWith_nonempty: "endsWith s p \<Longrightarrow> p \<noteq> [] \<Longrightarrow> s \<noteq> []"
  by (auto simp add: endsWith_def)

text \<open>The parts of a split, with one separator each, fit into the input.\<close>

definition weight :: "string list \<Rightarrow> nat" where
  "weight ps = sum_list (map (\<lambda>p. Suc (length p)) ps)"

lemma weight_splitTop:
  "weight (splitTop sep cs parts cur d) \<le> weight parts + length cur + length cs + 1"
proof (induction cs arbitrary: parts cur d)
  case Nil
  have "length (trim cur) \<le> length cur" by (rule length_trim_le)
  then show ?case by (simp add: weight_def)
next
  case (Cons ch cs)
  have t: "length (trim cur) \<le> length cur" by (rule length_trim_le)
  have a: "weight (splitTop sep cs parts (cur @ [ch]) e) \<le> weight parts + length cur + length cs + 2" for e
    using Cons.IH[of parts "cur @ [ch]" e] by simp
  have b: "weight (splitTop sep cs (parts @ [trim cur]) [] e) \<le> weight parts + length cur + length cs + 2" for e
    using Cons.IH[of "parts @ [trim cur]" "[]" e] t by (simp add: weight_def)
  show ?case using a b by (simp del: set_simps)
qed

lemma weight_mem: "p \<in> set ps \<Longrightarrow> Suc (length p) \<le> weight ps"
  by (induction ps) (auto simp add: weight_def)

lemma weight_mem2: "p \<in> set ps \<Longrightarrow> 1 < length ps \<Longrightarrow> length p + 2 \<le> weight ps"
proof (induction ps)
  case Nil then show ?case by simp
next
  case (Cons q qs)
  then obtain r rs where qs: "qs = r # rs" by (cases qs) auto
  show ?case
  proof (cases "p = q")
    case True
    then show ?thesis by (simp add: weight_def qs)
  next
    case False
    then have "p \<in> set qs" using Cons.prems by simp
    then have "Suc (length p) \<le> weight qs" by (rule weight_mem)
    then show ?thesis by (simp add: weight_def)
  qed
qed

lemma splitUnion_part_shorter:
  "p \<in> set (splitUnion x) \<Longrightarrow> 1 < length (splitUnion x) \<Longrightarrow> length p < length x"
  using weight_mem2[of p "splitUnion x"] weight_splitTop[of "CHR ''|''" x "[]" "[]" 0]
  by (simp add: splitUnion_def weight_def)

lemma splitByComma_part_le:
  "p \<in> set (splitByComma x) \<Longrightarrow> length p \<le> length x"
  using weight_mem[of p "splitByComma x"] weight_splitTop[of "CHR '',''" x "[]" "[]" 0]
  by (simp add: splitByComma_def weight_def)



lemma rmatch_suffix: "p \<in> set (rmatch r s c) \<Longrightarrow> \<exists>u. s = u @ fst p"
proof (induction r s c arbitrary: p rule: rmatch.induct)
  case (2 l s c)
  have "s = take (length l) s @ drop (length l) s" by simp
  then have "\<exists>u. s = u @ drop (length l) s" by blast
  with 2 show ?case by (auto split: if_splits)
next
  case (3 cls s c)
  then show ?case by (auto split: list.splits if_splits)
next
  case (4 cls s c)
  then show ?case by (auto split: list.splits if_splits)
next
  case (5 a b s c)
  from 5(3) obtain q where q: "q \<in> set (rmatch a s c)" "p \<in> set (rmatch b (fst q) (snd q))"
    by auto
  from 5(1)[OF q(1)] obtain u where u: "s = u @ fst q" by blast
  from 5(2)[OF q(1) q(2)] obtain v where v: "fst q = v @ fst p" by blast
  show ?case using u v by (intro exI[of _ "u @ v"]) simp
next
  case (7 r s c)
  from 7(3) have "p = (s, c) \<or> (\<exists>q \<in> set (rmatch r s c). length (fst q) < length s
      \<and> p \<in> set (rmatch (Star r) (fst q) (snd q)))"
    by (subst (asm) rmatch.simps(7)) (auto split: if_splits)
  then show ?case
  proof
    assume "p = (s, c)" then show ?thesis by simp
  next
    assume "\<exists>q \<in> set (rmatch r s c). length (fst q) < length s
      \<and> p \<in> set (rmatch (Star r) (fst q) (snd q))"
    then obtain q where q: "q \<in> set (rmatch r s c)" "length (fst q) < length s"
      "p \<in> set (rmatch (Star r) (fst q) (snd q))" by blast
    from 7(1)[OF q(1)] obtain u where u: "s = u @ fst q" by blast
    from 7(2)[OF q(1) q(2) q(3)] obtain v where v: "fst q = v @ fst p" by blast
    show ?thesis using u v by (intro exI[of _ "u @ v"]) simp
  qed
next
  case (8 r s c)
  from 8(3) have "p = (s, c) \<or> (\<exists>q \<in> set (rmatch r s c). length (fst q) < length s
      \<and> p \<in> set (rmatch (LazyStar r) (fst q) (snd q)))"
    by (subst (asm) rmatch.simps(8)) (auto split: if_splits)
  then show ?case
  proof
    assume "p = (s, c)" then show ?thesis by simp
  next
    assume "\<exists>q \<in> set (rmatch r s c). length (fst q) < length s
      \<and> p \<in> set (rmatch (LazyStar r) (fst q) (snd q))"
    then obtain q where q: "q \<in> set (rmatch r s c)" "length (fst q) < length s"
      "p \<in> set (rmatch (LazyStar r) (fst q) (snd q))" by blast
    from 8(1)[OF q(1)] obtain u where u: "s = u @ fst q" by blast
    from 8(2)[OF q(1) q(2) q(3)] obtain v where v: "fst q = v @ fst p" by blast
    show ?thesis using u v by (intro exI[of _ "u @ v"]) simp
  qed
qed (auto split: if_splits)

lemma rmatch_length: "p \<in> set (rmatch r s c) \<Longrightarrow> length (fst p) \<le> length s"
  using rmatch_suffix[of p r s c] by auto

lemma rx_at_length: "rx_at r s = Some p \<Longrightarrow> length (fst p) \<le> length s"
  by (auto simp add: rx_at_def split: list.splits intro: rmatch_length[where c="[]" and r=r])

lemma rx_at_mem: "rx_at r s = Some p \<Longrightarrow> p \<in> set (rmatch r s [])"
  by (auto simp add: rx_at_def split: list.splits)

lemma rx_search_Some:
  "rx_search r s = Some (i, p) \<Longrightarrow> i \<le> length s \<and> rx_at r (drop i s) = Some p"
proof (induction s arbitrary: i p)
  case Nil
  then show ?case by (auto split: option.splits)
next
  case (Cons x xs)
  then show ?case by (auto split: option.splits)
qed

lemma rx_search_None: "rx_search r s = None \<Longrightarrow> i \<le> length s \<Longrightarrow> rx_at r (drop i s) = None"
proof (induction s arbitrary: i)
  case Nil
  then show ?case by (auto split: option.splits)
next
  case (Cons x xs)
  then show ?case by (cases i) (auto split: option.splits)
qed

lemma length_replaceFirst_empty:
  assumes "rx_search r s = Some (i, p)" "length (fst p) < length (drop i s)"
  shows "length (replaceFirst r [] s) < length s"
proof -
  from rx_search_Some[OF assms(1)] have i: "i \<le> length s" by simp
  show ?thesis using assms i by (cases p) (simp add: replaceFirst_def)
qed


lemma rmatch_Seq_Lit:
  "p \<in> set (rmatch (Seq (Lit l) r) s c) \<Longrightarrow> length (fst p) + length l \<le> length s"
proof -
  assume a: "p \<in> set (rmatch (Seq (Lit l) r) s c)"
  then have t: "take (length l) s = l" and m: "p \<in> set (rmatch r (drop (length l) s) c)"
    by (auto split: if_splits)
  from t have "length l \<le> length s" by (metis length_take min.cobounded1)
  with rmatch_length[OF m] show ?thesis by simp
qed

lemma nilSuffix_found:
  assumes "endsWith x ''| nil'' \<or> endsWith x ''|nil''"
  shows "rx_search nilSuffixRe x \<noteq> None"
proof
  assume n: "rx_search nilSuffixRe x = None"
  have a: "rx_at nilSuffixRe ''| nil'' \<noteq> None" by code_simp
  have b: "rx_at nilSuffixRe ''|nil'' \<noteq> None" by code_simp
  have c: "rx_at nilSuffixRe (drop (length x - k) x) = None" for k
    using rx_search_None[OF n, of "length x - k"] by simp
  from assms show False
  proof
    assume "endsWith x ''| nil''"
    then have "drop (length x - length ''| nil'') x = ''| nil''" by (simp only: endsWith_def)
    with c[of "length ''| nil''"] a show False by simp
  next
    assume "endsWith x ''|nil''"
    then have "drop (length x - length ''|nil'') x = ''|nil''" by (simp only: endsWith_def)
    with c[of "length ''|nil''"] b show False by simp
  qed
qed

lemma nilSuffix_shorter:
  assumes "endsWith x ''| nil'' \<or> endsWith x ''|nil''"
  shows "length (trim (replaceFirst nilSuffixRe [] x)) < length x"
proof -
  from nilSuffix_found[OF assms] obtain i p where ip: "rx_search nilSuffixRe x = Some (i, p)"
    by (cases "rx_search nilSuffixRe x") auto
  from rx_search_Some[OF ip] have at: "rx_at nilSuffixRe (drop i x) = Some p" by simp
  have "p \<in> set (rmatch (Seq (Lit ''|'') (seqs [Star (Chars [Space]), Lit ''nil'', Eos])) (drop i x) [])"
    using rx_at_mem[OF at] by (simp add: nilSuffixRe_def seqs_def)
  from rmatch_Seq_Lit[OF this] have "length (fst p) < length (drop i x)" by simp
  from length_replaceFirst_empty[OF ip this] length_trim_le[of "replaceFirst nilSuffixRe [] x"]
  show ?thesis by simp
qed

lemma arrayMatch_shorter:
  assumes "rx_at arrayRe x = Some m"
  shows "length (grp (snd m) 1) < length x"
proof -
  have "m \<in> set (rmatch (Seq (Group 1 (Plus1 anyChar)) (Seq (Lit ''[]'') (Seq Eos Eps))) x [])"
    using rx_at_mem[OF assms] by (simp add: arrayRe_def seqs_def)
  then obtain q where q: "q \<in> set (rmatch (Plus1 anyChar) x [])"
    and m: "m \<in> set (rmatch (Seq (Lit ''[]'') (Seq Eos Eps)) (fst q) ((1, take (length x - length (fst q)) x) # snd q))"
    by auto
  from rmatch_Seq_Lit[OF m] have two: "2 \<le> length (fst q)" by simp
  from m have "snd m = (1, take (length x - length (fst q)) x) # snd q"
    by (auto split: if_splits)
  then have "grp (snd m) 1 = take (length x - length (fst q)) x" by (simp add: grp_def)
  with two rmatch_length[OF q] show ?thesis by simp
qed

lemma length_cutDesc_le: "length (cutDesc s) \<le> length s"
  by (auto simp add: cutDesc_def split: option.splits prod.splits
      intro: order_trans[OF length_trim_le] length_slice_le)

lemma returnStrOf_shorter: "startsWith rest '':'' \<Longrightarrow> length (returnStrOf rest) < length rest"
proof -
  assume "startsWith rest '':''"
  then have ne: "rest \<noteq> []" by (auto simp add: startsWith_def)
  have "length (returnStrOf rest) \<le> length (sliceFrom rest 1)"
    unfolding returnStrOf_def
    by (meson length_cutDesc_le length_stripAt_le length_trim_le order_trans)
  with length_sliceFrom_pos[OF ne, of 1] show ?thesis by simp
qed

lemma findParenLoop_bound: "findParenLoop cs i d = Some e \<Longrightarrow> i \<le> e \<and> e < i + length cs"
proof (induction cs arbitrary: i d)
  case Nil
  then show ?case by simp
next
  case (Cons ch cs)
  then show ?case by (fastforce simp add: Let_def split: if_splits)
qed

lemma findMatchingParen_bound: "findMatchingParen s st = Some e \<Longrightarrow> e < length s"
  using findParenLoop_bound[of "drop st s" st 0 e] by (auto simp add: findMatchingParen_def)

lemma indexOf_occurs: "indexOf s sub = Some i \<Longrightarrow> occursAt s sub i"
  by (auto simp add: indexOf_def find_Some_iff)

lemma indexOf_paren_fun: "startsWith s ''fun'' \<Longrightarrow> indexOf s ''('' = Some st \<Longrightarrow> 0 < st"
proof (rule ccontr)
  assume a: "startsWith s ''fun''" "indexOf s ''('' = Some st" "\<not> 0 < st"
  then have "occursAt s ''('' 0" using indexOf_occurs by auto
  then have "take (length ''('') s = ''(''" by (simp add: occursAt_def)
  moreover from a(1) have "take (length ''fun'') s = ''fun''" by (simp only: startsWith_def)
  ultimately show False by (cases s) auto
qed

lemma parseParam_type:
  "parseParam part = Some p \<Longrightarrow> length (p_type p) \<le> length part + 2"
proof -
  assume a: "parseParam part = Some p"
  let ?t = "trim part"
  have t: "length ?t \<le> length part" by (rule length_trim_le)
  have sl0: "length (trim (sliceFrom ?t k)) \<le> length part" for k
    by (meson length_sliceFrom_le length_trim_le order_trans t)
  have sl: "length (trim (sliceFrom ?t k)) \<le> Suc (Suc (length part))" for k
    using sl0[of k] by simp
  have sl2: "length (slice (trim (sliceFrom ?t k)) 0 (-1)) \<le> Suc (Suc (length part))" for k
    using length_slice_le[of "trim (sliceFrom ?t k)" 0 "-1"] sl0[of k] by simp
  have "startsWith ?t ''...'' \<Longrightarrow> length ''...'' \<le> length ?t"
    unfolding startsWith_def by (metis length_take min.cobounded1)
  then have dots: "startsWith ?t ''...'' \<Longrightarrow> 3 \<le> length part"
    using t by simp
  have ne: "?t \<noteq> [] \<Longrightarrow> 1 \<le> length part" using t by (cases ?t) auto
  from a show ?thesis
    using dots ne
    by (auto simp add: parseParam_def Let_def sl0 sl sl2 split: if_splits option.splits)
qed

lemma parseParams_type:
  "p \<in> set (parseParams ps) \<Longrightarrow> ps \<noteq> [] \<and> length (p_type p) \<le> length ps + 2"
proof -
  assume a: "p \<in> set (parseParams ps)"
  then have ne: "trim ps \<noteq> []" by (auto simp add: parseParams_def split: if_splits)
  then have "ps \<noteq> []" by (auto simp add: trim_def)
  moreover from a ne obtain part where "part \<in> set (splitByComma ps)" "parseParam part = Some p"
    by (auto simp add: parseParams_def List.map_filter_def)
  then have "length (p_type p) \<le> length ps + 2"
    using parseParam_type splitByComma_part_le by fastforce
  ultimately show ?thesis by simp
qed

lemma paramsStr_bound:
  assumes "e < length s" "slice s (int st + 1) (int e) \<noteq> []"
  shows "length (slice s (int st + 1) (int e)) + st + 2 \<le> length s"
  using assms by (auto simp add: slice_def Let_def min_def split: if_splits)


definition tmeasure :: "string + string \<Rightarrow> nat" where
  \<comment> \<open>the measure of the recursion: \<open>Inl\<close> for an argument of \<^verbatim>\<open>convertLuaTypeToTS\<close>, \<open>Inr\<close> for one
      of \<^verbatim>\<open>parseFunType\<close>\<close>
  "tmeasure x = (case x of Inl s \<Rightarrow> 2 * length s + 3
                 | Inr s \<Rightarrow> 2 * length s + (if startsWith s ''fun'' then 2 else 5))"

lemma tm_conv:
  "length t < length x \<Longrightarrow> x = cleanType l0 \<Longrightarrow> (Inl t, Inl l0) \<in> measure tmeasure"
  using length_cleanType_le[of l0] by (simp add: tmeasure_def)

lemma startsWith_append: "startsWith s (p @ q) \<Longrightarrow> startsWith s p"
proof -
  assume "startsWith s (p @ q)"
  then have a: "take (length p + length q) s = p @ q" by (simp add: startsWith_def)
  have "take (length p) s = take (length p) (take (length p + length q) s)" by (simp add: min_def)
  also have "\<dots> = p" by (simp only: a) simp
  finally show ?thesis by (simp add: startsWith_def)
qed

lemma tm_parse_conv: "length t < length l \<Longrightarrow> (Inl t, Inr l) \<in> measure tmeasure"
  by (simp add: tmeasure_def)

lemma tm_parse_param:
  "length t + st \<le> length l \<Longrightarrow> (startsWith l ''fun'' \<Longrightarrow> 0 < st)
   \<Longrightarrow> (Inl t, Inr l) \<in> measure tmeasure"
  by (auto simp add: tmeasure_def)

text \<open>The calls, one lemma for each: the argument passed on is smaller in \<open>tmeasure\<close>.\<close>

lemma call_nullable:
  "x = cleanType l0 \<Longrightarrow> endsWith x ''| nil'' \<or> endsWith x ''|nil''
   \<Longrightarrow> (Inl (trim (replaceFirst nilSuffixRe [] x)), Inl l0) \<in> measure tmeasure"
  by (intro tm_conv[of _ x]) (auto intro: nilSuffix_shorter)

lemma call_slice:
  "x = cleanType l0 \<Longrightarrow> x \<noteq> [] \<Longrightarrow> 0 \<le> k
   \<Longrightarrow> (Inl (slice x k (- 1)), Inl l0) \<in> measure tmeasure"
  by (intro tm_conv[of _ x]) (auto intro: length_slice_butlast)

lemma call_union:
  "x = cleanType l0 \<Longrightarrow> 1 < length (splitUnion x) \<Longrightarrow> xa \<in> set (splitUnion x)
   \<Longrightarrow> (Inl (trim xa), Inl l0) \<in> measure tmeasure"
proof -
  assume a: "x = cleanType l0" "1 < length (splitUnion x)" "xa \<in> set (splitUnion x)"
  then have "length xa < length x" by (auto intro: splitUnion_part_shorter)
  with length_trim_le[of xa] a show ?thesis by (intro tm_conv[of _ x]) auto
qed

lemma call_comma:
  "x = cleanType l0 \<Longrightarrow> x \<noteq> [] \<Longrightarrow> 0 \<le> k \<Longrightarrow> xa \<in> set (splitByComma (slice x k (- 1)))
   \<Longrightarrow> (Inl (trim xa), Inl l0) \<in> measure tmeasure"
proof -
  assume a: "x = cleanType l0" "x \<noteq> []" "0 \<le> k" "xa \<in> set (splitByComma (slice x k (- 1)))"
  from length_slice_butlast[OF a(2,3)] splitByComma_part_le[OF a(4)] length_trim_le[of xa] a(1)
  show ?thesis by (intro tm_conv[of _ x]) auto
qed

lemma call_table:
  "x = cleanType l0 \<Longrightarrow> x \<noteq> [] \<Longrightarrow> length (splitByComma (slice x 6 (- 1))) = 2 \<Longrightarrow> i < 2
   \<Longrightarrow> (Inl (trim (splitByComma (slice x 6 (- 1)) ! i)), Inl l0) \<in> measure tmeasure"
  by (rule call_comma[of x l0 6]) auto

lemma call_parseFunType:
  "x = cleanType l0 \<Longrightarrow> startsWith x ''fun('' \<or> startsWith x ''fun ''
   \<Longrightarrow> (Inr x, Inl l0) \<in> measure tmeasure"
proof -
  assume x: "x = cleanType l0" and a: "startsWith x ''fun('' \<or> startsWith x ''fun ''"
  have "startsWith x (''fun'' @ ''('') \<or> startsWith x (''fun'' @ '' '')" using a by simp
  then have "startsWith x ''fun''" using startsWith_append by blast
  then show ?thesis using length_cleanType_le[of l0] x by (simp add: tmeasure_def)
qed

lemma call_array:
  "x = cleanType l0 \<Longrightarrow> rx_at arrayRe x = Some m
   \<Longrightarrow> (Inl (grp (snd m) 1), Inl l0) \<in> measure tmeasure"
proof -
  assume a: "x = cleanType l0" "rx_at arrayRe x = Some m"
  from arrayMatch_shorter[OF a(2)] a(1) show ?thesis by (intro tm_conv[of _ x]) auto
qed

lemma call_return:
  "rest = trim (sliceFrom l k) \<Longrightarrow> startsWith rest '':''
   \<Longrightarrow> (Inl (returnStrOf rest), Inr l) \<in> measure tmeasure"
proof -
  assume a: "rest = trim (sliceFrom l k)" "startsWith rest '':''"
  have "length rest \<le> length l"
    using a by (metis length_sliceFrom_le length_trim_le order_trans)
  with returnStrOf_shorter[of rest] a show ?thesis by (intro tm_parse_conv) auto
qed

lemma call_returns:
  "rest = trim (sliceFrom l k) \<Longrightarrow> startsWith rest '':''
   \<Longrightarrow> xb \<in> set (splitByComma (returnStrOf rest))
   \<Longrightarrow> (Inl (trim xb), Inr l) \<in> measure tmeasure"
proof -
  assume a: "rest = trim (sliceFrom l k)" "startsWith rest '':''"
    "xb \<in> set (splitByComma (returnStrOf rest))"
  have "length rest \<le> length l"
    using a by (metis length_sliceFrom_le length_trim_le order_trans)
  with returnStrOf_shorter[of rest] splitByComma_part_le[of xb "returnStrOf rest"]
    length_trim_le[of xb] a show ?thesis by (intro tm_parse_conv) auto
qed

lemma call_param:
  "indexOf l ''('' = Some st \<Longrightarrow> findMatchingParen l st = Some e
   \<Longrightarrow> p \<in> set (parseParams (slice l (int st + 1) (int e)))
   \<Longrightarrow> (Inl (p_type p), Inr l) \<in> measure tmeasure"
proof -
  assume a: "indexOf l ''('' = Some st" "findMatchingParen l st = Some e"
    and p: "p \<in> set (parseParams (slice l (int st + 1) (int e)))"
  from parseParams_type[OF p] have ne: "slice l (int st + 1) (int e) \<noteq> []"
    and le: "length (p_type p) \<le> length (slice l (int st + 1) (int e)) + 2" by auto
  from a have "e < length l" by (auto intro: findMatchingParen_bound)
  from paramsStr_bound[OF this ne] le have "length (p_type p) + st \<le> length l" by simp
  moreover have "startsWith l ''fun'' \<Longrightarrow> 0 < st"
    using a by (auto intro: indexOf_paren_fun)
  ultimately show ?thesis by (rule tm_parse_param)
qed

subsection \<open>\<^verbatim>\<open>convertLuaTypeToTS\<close> and \<^verbatim>\<open>parseFunType\<close>\<close>

function convertLuaTypeToTS :: "string \<Rightarrow> string"
  and parseFunType :: "string \<Rightarrow> string" where
  "convertLuaTypeToTS luaType0 =
     (let luaType = cleanType luaType0 in
      if luaType = [] then ''void''
      else if luaType = ''nil'' then ''void''
      else if endsWith luaType ''| nil'' \<or> endsWith luaType ''|nil'' then
        convertLuaTypeToTS (trim (replaceFirst nilSuffixRe [] luaType)) @ '' | null''
      else if luaType = ''number'' \<or> luaType = ''integer'' then ''number''
      else if luaType = ''string'' then ''string''
      else if luaType = ''boolean'' then ''boolean''
      else if luaType = ''any'' then ''any''
      else if luaType = ''userdata'' then ''unknown''
      else if luaType = ''table'' then ''object''
      else if luaType = ''function'' then ''(...args: any[]) => any''
      else if endsWith luaType ''?'' \<and> \<not> includesStr luaType ''|'' then
        convertLuaTypeToTS (slice luaType 0 (-1)) @ '' | undefined''
      else if includesStr luaType ''|'' \<and> 1 < length (splitUnion luaType) then
        join '' | '' (uniq [] (map (\<lambda>p. convertLuaTypeToTS (trim p)) (splitUnion luaType)))
      else if startsWith luaType ''('' \<and> endsWith luaType '')'' then
        (if 1 < length (splitByComma (slice luaType 1 (-1))) then
           ''LuaMultiReturn<['' @
             join '', '' (map (\<lambda>t. convertLuaTypeToTS (trim t)) (splitByComma (slice luaType 1 (-1))))
             @ '']>''
         else convertLuaTypeToTS (slice luaType 1 (-1)))
      else
        (case rx_at arrayRe luaType of
           Some arrayMatch \<Rightarrow> convertLuaTypeToTS (grp (snd arrayMatch) 1) @ ''[]''
         | None \<Rightarrow>
            if startsWith luaType ''table<'' \<and> endsWith luaType ''>''
               \<and> length (splitByComma (slice luaType 6 (-1))) = 2 then
              ''Record<'' @ convertLuaTypeToTS (trim (splitByComma (slice luaType 6 (-1)) ! 0)) @ '', ''
                @ convertLuaTypeToTS (trim (splitByComma (slice luaType 6 (-1)) ! 1)) @ ''>''
            else if startsWith luaType ''fun('' \<or> startsWith luaType ''fun '' then
              parseFunType luaType
            else luaType))"
| "parseFunType luaType =
     (case indexOf luaType ''('' of
        None \<Rightarrow> ''(...args: any[]) => any''
      | Some startParen \<Rightarrow>
         (case findMatchingParen luaType startParen of
            None \<Rightarrow> ''(...args: any[]) => any''
          | Some endParen \<Rightarrow>
             (let paramsStr = slice luaType (int startParen + 1) (int endParen);
                  rest = trim (sliceFrom luaType (int endParen + 1));
                  returnType =
                    (if startsWith rest '':'' then
                       (if 1 < length (splitByComma (returnStrOf rest)) then
                          ''LuaMultiReturn<['' @
                            join '', '' (map (\<lambda>t. convertLuaTypeToTS (trim t))
                                            (splitByComma (returnStrOf rest)))
                            @ '']>''
                        else convertLuaTypeToTS (returnStrOf rest))
                     else ''void'');
                  params = parseParams paramsStr;
                  tsParams =
                    map (\<lambda>p. if p_name p = ''self'' then ''this: '' @ p_type p
                              else sanitizeParamName (p_name p) @ (if p_optional p then ''?'' else [])
                                   @ '': '' @ convertLuaTypeToTS (p_type p)) params
              in ''('' @
                   join '', '' (if params = [] \<or> p_name (hd params) \<noteq> ''self''
                                then ''this: void'' # tsParams else tsParams)
                   @ '') => '' @ returnType)))"
  by pat_completeness auto
termination
proof (relation "measure tmeasure", goal_cases)
  case 1
  show ?case by simp
next
  case (2 l0 x)
  then show ?case by (intro call_nullable) auto
next
  case (3 l0 x)
  then show ?case by (intro call_slice) auto
next
  case (4 l0 x xa)
  then show ?case by (intro call_union[of x]) auto
next
  case (5 l0 x xa)
  then show ?case by (intro call_comma[of x l0 1]) auto
next
  case (6 l0 x)
  then show ?case by (intro call_slice) auto
next
  case (7 l0 x)
  then show ?case by (intro call_table) auto
next
  case (8 l0 x)
  then show ?case by (intro call_table) auto
next
  case (9 l0 x)
  then show ?case by (intro call_parseFunType) auto
next
  case (10 l0 x m)
  then show ?case by (intro call_array) auto
next
  case (11 l st e ps rest xb)
  then show ?case by (intro call_returns[of rest l "int e + 1"]) auto
next
  case (12 l st e ps rest)
  then show ?case by (intro call_return[of rest l "int e + 1"]) auto
next
  case (13 l st e ps rest rt params p)
  then show ?case by (intro call_param[of l st e]) auto
qed

declare convertLuaTypeToTS.simps [simp del]
declare parseFunType.simps [simp del]



section \<open>Parsing API files\<close>

record ParsedField =
  f_name :: string
  f_type :: string
  f_description :: "string option"
  f_isMethod :: bool

record ParsedDataField =
  d_name :: string
  d_type :: string
  d_description :: "string option"
  d_optional :: bool

record IndexSignature =
  keyType :: string
  valueType :: string

record ParsedClass =
  c_name :: string
  c_fields :: "ParsedField list"
  c_dataFields :: "ParsedDataField list"
  c_indexSignatures :: "IndexSignature list"

record Alias =
  a_name :: string
  a_type :: string

record PendingParam =
  pp_name :: string
  pp_type :: string
  pp_optional :: bool

text \<open>
  A \<^verbatim>\<open>Map\<close> iterates in insertion order and \<^verbatim>\<open>set\<close> keeps the place of a key that is
  present: an association list with \<^const>\<open>map_of\<close> for \<^verbatim>\<open>get\<close> and \<^const>\<open>AList.update\<close>
  for \<^verbatim>\<open>set\<close>.
\<close>

record ParseResult =
  classes :: "(string \<times> ParsedClass) list"
  aliases :: "(string \<times> Alias) list"
  detectedMainExport :: "string option"

text \<open>The local variables of \<^verbatim>\<open>parseApiFile\<close>: the result under construction and the context.\<close>

record Parser = ParseResult +
  currentClass :: "string option"
  currentDescription :: "string list"
  pendingParams :: "PendingParam list"
  pendingReturn :: "string option"

datatype error = TypeError

definition emptyClass :: "string \<Rightarrow> ParsedClass" where
  "emptyClass n = \<lparr>c_name = n, c_fields = [], c_dataFields = [], c_indexSignatures = []\<rparr>"

definition ensureClass :: "string \<Rightarrow> (string \<times> ParsedClass) list \<Rightarrow> (string \<times> ParsedClass) list" where
  \<comment> \<open>\<^verbatim>\<open>if (!classes.has(n)) classes.set(n, {name: n, c_fields: [], ...})\<close>\<close>
  "ensureClass n cs = (if map_of cs n = None then AList.update n (emptyClass n) cs else cs)"

definition funcDeclRe :: regex where
  \<comment> \<open>\<^verbatim>\<open>/^function\s+([\w.]+)\.(\w+)\s*\(([^)]*)\)/\<close>\<close>
  "funcDeclRe = seqs [Lit ''function'', Plus1 (Chars [Space]),
     Group 1 (Plus1 (Chars [Word, One CHR ''.''])), Lit ''.'', Group 2 (Plus1 (Chars [Word])),
     Star (Chars [Space]), Lit ''('', Group 3 (Star (NotChars [One CHR '')''])), Lit '')'']"

definition funcColonRe :: regex where
  \<comment> \<open>\<^verbatim>\<open>/^function\s+(\w+):(\w+)\s*\(([^)]*)\)/\<close>\<close>
  "funcColonRe = seqs [Lit ''function'', Plus1 (Chars [Space]),
     Group 1 (Plus1 (Chars [Word])), Lit '':'', Group 2 (Plus1 (Chars [Word])),
     Star (Chars [Space]), Lit ''('', Group 3 (Star (NotChars [One CHR '')''])), Lit '')'']"

definition subclassAssignRe :: regex where
  \<comment> \<open>\<^verbatim>\<open>/^(\w+)\.(\w+)\s*=\s*\{\s*\}$/\<close>\<close>
  "subclassAssignRe = seqs [Group 1 (Plus1 (Chars [Word])), Lit ''.'', Group 2 (Plus1 (Chars [Word])),
     Star (Chars [Space]), Lit ''='', Star (Chars [Space]), Lit ''{'', Star (Chars [Space]),
     Lit ''}'', Eos]"

definition docMarkerRe :: regex where
  \<comment> \<open>\<^verbatim>\<open>/^---\s*/\<close>\<close>
  "docMarkerRe = seqs [Lit ''---'', Star (Chars [Space])]"

definition typeRe :: regex where
  \<comment> \<open>\<^verbatim>\<open>/^@type\s+(\w+)/\<close>\<close>
  "typeRe = seqs [Lit ''@type'', Plus1 (Chars [Space]), Group 1 (Plus1 (Chars [Word]))]"

definition aliasRe :: regex where
  \<comment> \<open>\<^verbatim>\<open>/^@alias\s+(\w+)\s+(.+)$/\<close>\<close>
  "aliasRe = seqs [Lit ''@alias'', Plus1 (Chars [Space]), Group 1 (Plus1 (Chars [Word])),
     Plus1 (Chars [Space]), Group 2 (Plus1 anyChar), Eos]"

definition classRe :: regex where
  \<comment> \<open>\<^verbatim>\<open>/^@class\s+(\w+)/\<close>\<close>
  "classRe = seqs [Lit ''@class'', Plus1 (Chars [Space]), Group 1 (Plus1 (Chars [Word]))]"

definition paramRe :: regex where
  \<comment> \<open>\<^verbatim>\<open>/^@param\s+(\w+\??)\s+(\S+)(?:\s+(.*))?$/\<close>\<close>
  "paramRe = seqs [Lit ''@param'', Plus1 (Chars [Space]),
     Group 1 (Seq (Plus1 (Chars [Word])) (Opt (Lit ''?''))), Plus1 (Chars [Space]),
     Group 2 (Plus1 (NotChars [Space])),
     Opt (Seq (Plus1 (Chars [Space])) (Group 3 (Star anyChar))), Eos]"

definition returnRe :: regex where
  \<comment> \<open>\<^verbatim>\<open>/^@return\s+(.+)$/\<close>\<close>
  "returnRe = seqs [Lit ''@return'', Plus1 (Chars [Space]), Group 1 (Plus1 anyChar), Eos]"

definition returnDescRe :: regex where
  \<comment> \<open>\<^verbatim>\<open>/ [A-Z][a-z]| --/\<close>\<close>
  "returnDescRe = Alt descRe (Lit '' --'')"

definition trailingWordRe :: regex where
  \<comment> \<open>\<^verbatim>\<open>/ ([a-z_]\w*)$/\<close>\<close>
  "trailingWordRe = seqs [Lit '' '',
     Group 1 (Seq (Chars [Range CHR ''a'' CHR ''z'', One CHR ''_'']) (Star (Chars [Word]))), Eos]"

definition embeddedDescRe :: regex where
  \<comment> \<open>\<^verbatim>\<open>/[>\]\w]\s+\w/\<close>\<close>
  "embeddedDescRe = seqs [Chars [One CHR ''>'', One CHR '']'', Word], Plus1 (Chars [Space]),
     Chars [Word]]"

definition indexSigRe :: regex where
  \<comment> \<open>\<^verbatim>\<open>/^@field\s+(?:public\s+)?\[(\w+)\]\s+(.+)$/\<close>\<close>
  "indexSigRe = seqs [Lit ''@field'', Plus1 (Chars [Space]),
     Opt (Seq (Lit ''public'') (Plus1 (Chars [Space]))),
     Lit ''['', Group 1 (Plus1 (Chars [Word])), Lit '']'', Plus1 (Chars [Space]),
     Group 2 (Plus1 anyChar), Eos]"

definition fieldRe :: regex where
  \<comment> \<open>\<^verbatim>\<open>/^@field\s+(?:public\s+)?(\w+\??)\s+(.+)$/\<close>\<close>
  "fieldRe = seqs [Lit ''@field'', Plus1 (Chars [Space]),
     Opt (Seq (Lit ''public'') (Plus1 (Chars [Space]))),
     Group 1 (Seq (Plus1 (Chars [Word])) (Opt (Lit ''?''))), Plus1 (Chars [Space]),
     Group 2 (Plus1 anyChar), Eos]"

definition paramTypesOf :: "PendingParam list \<Rightarrow> string \<Rightarrow> string list" where
  \<comment> \<open>the loop over \<^verbatim>\<open>paramNames\<close>, the same for both forms of declaration\<close>
  "paramTypesOf pending paramsStr =
     map (\<lambda>paramName.
            case find (\<lambda>p. pp_name p = paramName) pending of
              Some paramInfo \<Rightarrow>
                paramName @ (if pp_optional paramInfo then ''?'' else []) @ '': '' @ pp_type paramInfo
            | None \<Rightarrow> paramName @ '': any'')
         (filter (\<lambda>p. p \<noteq> []) (map trim (splitOn CHR '','' paramsStr)))"

definition orVoid :: "string option \<Rightarrow> string" where
  \<comment> \<open>\<^verbatim>\<open>pendingReturn || 'void'\<close>\<close>
  "orVoid r = (case r of None \<Rightarrow> ''void'' | Some t \<Rightarrow> if t = [] then ''void'' else t)"

definition descriptionOf :: "string list \<Rightarrow> string option" where
  \<comment> \<open>\<^verbatim>\<open>currentDescription.join(' ') || undefined\<close>\<close>
  "descriptionOf ds = (if join '' '' ds = [] then None else Some (join '' '' ds))"

definition attachMethod :: "Parser \<Rightarrow> string \<Rightarrow> string \<Rightarrow> string \<Rightarrow> error + Parser" where
  \<comment> \<open>the end of both declaration branches: \<^verbatim>\<open>cls.fields.push({...})\<close>, then the context is cleared\<close>
  "attachMethod st className methodName funType =
     (let cs = ensureClass className (classes st) in
      case map_of cs className of
        None \<Rightarrow> Inl TypeError
      | Some cls \<Rightarrow>
          Inr (st\<lparr>classes :=
                     AList.update className
                       (cls\<lparr>c_fields := c_fields cls @
                          [\<lparr>f_name = methodName, f_type = funType,
                            f_description = descriptionOf (currentDescription st),
                            f_isMethod = True\<rparr>]\<rparr>) cs,
                   pendingParams := [], pendingReturn := None, currentDescription := []\<rparr>))"

definition funcDecl :: "Parser \<Rightarrow> caps \<Rightarrow> error + Parser" where
  \<comment> \<open>\<^verbatim>\<open>function Class.method(params)\<close>: no implicit self\<close>
  "funcDecl st m =
     (let classPath = grp m 1; methodName = grp m 2; paramsStr = grp m 3;
          className = last (splitOn CHR ''.'' classPath);
          paramTypes = paramTypesOf (pendingParams st) paramsStr;
          returnType = orVoid (pendingReturn st);
          funType = ''fun('' @ join '', '' paramTypes @ ''): '' @ returnType
      in attachMethod st className methodName funType)"

definition funcColon :: "Parser \<Rightarrow> caps \<Rightarrow> error + Parser" where
  \<comment> \<open>\<^verbatim>\<open>function Class:method(params)\<close>: colon notation has implicit self\<close>
  "funcColon st m =
     (let className = grp m 1; methodName = grp m 2; paramsStr = grp m 3;
          paramTypes = paramTypesOf (pendingParams st) paramsStr;
          returnType = orVoid (pendingReturn st);
          funType = ''fun(self: '' @ className
                    @ (if 0 < length paramTypes then '', '' @ join '', '' paramTypes else [])
                    @ ''): '' @ returnType
      in attachMethod st className methodName funType)"

definition whenActive :: "Parser \<Rightarrow> 'a option \<Rightarrow> (string \<times> 'a) option" where
  \<comment> \<open>\<^verbatim>\<open>match && currentClass\<close>: the match and the current class, if both are truthy\<close>
  "whenActive st m =
     (case m of
        None \<Rightarrow> None
      | Some x \<Rightarrow> (case currentClass st of
                    None \<Rightarrow> None
                  | Some cur \<Rightarrow> if cur = [] then None else Some (cur, x)))"

definition subclassAssign :: "Parser \<Rightarrow> caps \<Rightarrow> string \<Rightarrow> error + Parser" where
  \<comment> \<open>\<^verbatim>\<open>Class.subclass = {}\<close> while a class is current\<close>
  "subclassAssign st m cur =
     (let parentClassName = grp m 1; fieldName = grp m 2;
          cs = ensureClass parentClassName (classes st) in
      case map_of cs parentClassName of
        None \<Rightarrow> Inl TypeError
      | Some parentCls \<Rightarrow>
          Inr (st\<lparr>classes :=
                     AList.update parentClassName
                       (parentCls\<lparr>c_dataFields := c_dataFields parentCls @
                          [\<lparr>d_name = fieldName, d_type = cur, d_description = None,
                            d_optional = False\<rparr>]\<rparr>) cs\<rparr>))"

definition typeKeywords :: "string list" where
  "typeKeywords = [''nil'', ''string'', ''number'', ''boolean'', ''integer'', ''any'', ''void'',
     ''table'', ''function'']"

definition cleanReturn :: "string \<Rightarrow> string" where
  \<comment> \<open>the \<^verbatim>\<open>@return\<close> branch, from the captured text to the value of \<^verbatim>\<open>pendingReturn\<close>\<close>
  "cleanReturn captured =
     (let r0 = trim captured;
          r1 = (case rx_search returnDescRe r0 of
                  None \<Rightarrow> r0 | Some (idx, m) \<Rightarrow> trim (slice r0 0 (int idx)));
          r2 = (case rx_search trailingWordRe r1 of
                  None \<Rightarrow> r1
                | Some (idx, m) \<Rightarrow>
                    if grp (snd m) 1 \<notin> set typeKeywords then trim (slice r1 0 (int idx)) else r1)
      in if rx_search embeddedDescRe r2 \<noteq> None then ''any'' else r2)"

definition hasSelfParam :: "string \<Rightarrow> bool" where
  "hasSelfParam t = (includesStr t ''self:'' \<or> includesStr t ''self :'')"

fun findIndex :: "('a \<Rightarrow> bool) \<Rightarrow> 'a list \<Rightarrow> nat option" where
  "findIndex P [] = None"
| "findIndex P (x # xs) = (if P x then Some 0 else map_option Suc (findIndex P xs))"

definition fieldDirective :: "Parser \<Rightarrow> caps \<Rightarrow> string \<Rightarrow> error + Parser" where
  \<comment> \<open>\<^verbatim>\<open>@field name type\<close> while a class is current\<close>
  "fieldDirective st m cur =
     (case map_of (classes st) cur of
        None \<Rightarrow> Inl TypeError
      | Some cls \<Rightarrow>
         (let isOptional = endsWith (grp m 1) ''?'';
              fieldName = (if isOptional then slice (grp m 1) 0 (-1) else grp m 1);
              fieldType = trim (grp m 2);
              description = descriptionOf (currentDescription st);
              cls' =
                (if startsWith fieldType ''fun('' \<or> startsWith fieldType ''fun '' then
                   (case findIndex (\<lambda>f. f_name f = fieldName) (c_fields cls) of
                      Some existingIdx \<Rightarrow>
                        if hasSelfParam fieldType \<and> \<not> hasSelfParam (f_type (c_fields cls ! existingIdx))
                        then cls\<lparr>c_fields := (c_fields cls)[existingIdx :=
                               \<lparr>f_name = fieldName, f_type = fieldType,
                                 f_description = description, f_isMethod = True\<rparr>]\<rparr>
                        else cls
                    | None \<Rightarrow>
                        cls\<lparr>c_fields := c_fields cls @
                          [\<lparr>f_name = fieldName, f_type = fieldType,
                            f_description = description, f_isMethod = True\<rparr>]\<rparr>)
                 else
                   (let descMatch = rx_search descRe fieldType;
                        cleanType = (case descMatch of None \<Rightarrow> fieldType
                                     | Some (idx, r) \<Rightarrow> trim (slice fieldType 0 (int idx)));
                        inlineDesc = (case descMatch of None \<Rightarrow> None
                                      | Some (idx, r) \<Rightarrow> Some (trim (sliceFrom fieldType (int idx))))
                    in cls\<lparr>c_dataFields := c_dataFields cls @
                         [\<lparr>d_name = fieldName, d_type = cleanType,
                           d_description = (if truthy description then description else inlineDesc),
                           d_optional = isOptional\<rparr>]\<rparr>))
          in Inr (st\<lparr>classes := AList.update cur cls' (classes st), currentDescription := []\<rparr>)))"

definition indexSigDirective :: "Parser \<Rightarrow> caps \<Rightarrow> string \<Rightarrow> error + Parser" where
  \<comment> \<open>\<^verbatim>\<open>@field [keyType] valueType\<close> while a class is current\<close>
  "indexSigDirective st m cur =
     (case map_of (classes st) cur of
        None \<Rightarrow> Inl TypeError
      | Some cls \<Rightarrow>
          Inr (st\<lparr>classes := AList.update cur
                 (cls\<lparr>c_indexSignatures := c_indexSignatures cls @
                    [\<lparr>keyType = grp m 1, valueType = trim (grp m 2)\<rparr>]\<rparr>) (classes st)\<rparr>))"

definition paramDirective :: "Parser \<Rightarrow> caps \<Rightarrow> Parser" where
  "paramDirective st m =
     (let isOptional = endsWith (grp m 1) ''?'';
          paramName = (if isOptional then slice (grp m 1) 0 (-1) else grp m 1)
      in st\<lparr>pendingParams := pendingParams st @
            [\<lparr>pp_name = paramName, pp_type = grp m 2, pp_optional = isOptional\<rparr>]\<rparr>)"

definition descriptionLine :: "Parser \<Rightarrow> string \<Rightarrow> Parser" where
  "descriptionLine st lineContent =
     (if \<not> startsWith lineContent ''@'' \<and> trim lineContent \<noteq> []
      then st\<lparr>currentDescription := currentDescription st @ [trim lineContent]\<rparr>
      else st)"

definition docLine :: "Parser \<Rightarrow> string \<Rightarrow> error + Parser" where
  \<comment> \<open>a line that starts with \<^verbatim>\<open>---\<close>; \<open>lineContent\<close> is what follows the marker\<close>
  "docLine st lineContent =
     (case rx_at typeRe lineContent of
        Some typeMatch \<Rightarrow> Inr (st\<lparr>detectedMainExport := Some (grp (snd typeMatch) 1)\<rparr>)
      | None \<Rightarrow>
     (case rx_at aliasRe lineContent of
        Some aliasMatch \<Rightarrow>
          Inr (st\<lparr>aliases := AList.update (grp (snd aliasMatch) 1)
                 \<lparr>a_name = grp (snd aliasMatch) 1, a_type = trim (grp (snd aliasMatch) 2)\<rparr>
                 (aliases st)\<rparr>)
      | None \<Rightarrow>
     (case rx_at classRe lineContent of
        Some classMatch \<Rightarrow>
          Inr (st\<lparr>currentClass := Some (grp (snd classMatch) 1),
                   classes := ensureClass (grp (snd classMatch) 1) (classes st)\<rparr>)
      | None \<Rightarrow>
     (case rx_at paramRe lineContent of
        Some paramMatch \<Rightarrow> Inr (paramDirective st (snd paramMatch))
      | None \<Rightarrow>
     (case rx_at returnRe lineContent of
        Some returnMatch \<Rightarrow>
          Inr (st\<lparr>pendingReturn := Some (cleanReturn (grp (snd returnMatch) 1))\<rparr>)
      | None \<Rightarrow>
     (case whenActive st (rx_at indexSigRe lineContent) of
        Some (cur, indexSigMatch) \<Rightarrow> indexSigDirective st (snd indexSigMatch) cur
      | None \<Rightarrow>
     (case whenActive st (rx_at fieldRe lineContent) of
        Some (cur, fieldMatch) \<Rightarrow> fieldDirective st (snd fieldMatch) cur
      | None \<Rightarrow> Inr (descriptionLine st lineContent))))))))"

definition step :: "Parser \<Rightarrow> string \<Rightarrow> error + Parser" where
  \<comment> \<open>one turn of the loop over the lines\<close>
  "step st line =
     (let trimmed = trim line in
      case rx_at funcDeclRe trimmed of
        Some funcDeclMatch \<Rightarrow> funcDecl st (snd funcDeclMatch)
      | None \<Rightarrow>
     (case rx_at funcColonRe trimmed of
        Some funcColonMatch \<Rightarrow> funcColon st (snd funcColonMatch)
      | None \<Rightarrow>
     (case whenActive st (rx_at subclassAssignRe trimmed) of
        Some (cur, subclassAssignMatch) \<Rightarrow> subclassAssign st (snd subclassAssignMatch) cur
      | None \<Rightarrow>
         if \<not> startsWith trimmed ''---'' then
           (if trimmed = [] \<or> startsWith trimmed ''--'' \<or> startsWith trimmed ''_G.'' then Inr st
            else Inr (st\<lparr>currentDescription := [], pendingParams := [], pendingReturn := None\<rparr>))
         else docLine st (replaceAt docMarkerRe [] trimmed))))"

fun parseLines :: "Parser \<Rightarrow> string list \<Rightarrow> error + Parser" where
  "parseLines st [] = Inr st"
| "parseLines st (line # ls) =
     (case step st line of Inl e \<Rightarrow> Inl e | Inr st' \<Rightarrow> parseLines st' ls)"

definition initialParser :: Parser where
  "initialParser = \<lparr>classes = [], aliases = [], detectedMainExport = None, currentClass = None,
     currentDescription = [], pendingParams = [], pendingReturn = None\<rparr>"

definition resultOf :: "Parser \<Rightarrow> ParseResult" where
  \<comment> \<open>\<^verbatim>\<open>return { classes, aliases, detectedMainExport }\<close>\<close>
  "resultOf st = \<lparr>classes = classes st, aliases = aliases st,
                   detectedMainExport = detectedMainExport st\<rparr>"

definition parseApiFile :: "string \<Rightarrow> error + ParseResult" where
  "parseApiFile content =
     (case parseLines initialParser (splitOn CHR 0x0A content) of
        Inl e \<Rightarrow> Inl e
      | Inr st \<Rightarrow> Inr (resultOf st))"

text \<open>
  The invariant of the loop that keeps \<^verbatim>\<open>classes.get(currentClass)\<close> defined: the current class,
  when there is one, is a key of \<^verbatim>\<open>classes\<close>.
\<close>

definition activeClassKnown :: "Parser \<Rightarrow> bool" where
  "activeClassKnown st =
     (case currentClass st of None \<Rightarrow> True | Some c \<Rightarrow> c = [] \<or> map_of (classes st) c \<noteq> None)"

section \<open>Class filtering\<close>

record ModuleConfig =
  m_file :: string
  m_mainExport :: "string option"
  m_filterClasses :: "string list option"
  m_declareGlobalVar :: bool

text \<open>
  \<open>m_declareGlobalVar\<close> is read for its truth value only, so the \<^verbatim>\<open>undefined\<close> of an absent
  property is \<^term>\<open>False\<close>.
\<close>

definition matchesFilter :: "string \<Rightarrow> string list \<Rightarrow> bool" where
  "matchesFilter className patterns =
     list_ex (\<lambda>pattern. if endsWith pattern ''*''
                          then startsWith className (slice pattern 0 (-1))
                          else className = pattern) patterns"

definition filterClasses ::
  "(string \<times> ParsedClass) list \<Rightarrow> string list option \<Rightarrow> (string \<times> ParsedClass) list" where
  \<comment> \<open>the entries of the new \<^verbatim>\<open>Map\<close> are the matching entries, in the order of the old one\<close>
  "filterClasses cs filterPatterns =
     (case filterPatterns of
        None \<Rightarrow> cs
      | Some ps \<Rightarrow> if ps = [] then cs else filter (\<lambda>e. matchesFilter (fst e) ps) cs)"

section \<open>Enum detection\<close>

definition isEnumLikeClass :: "ParsedClass \<Rightarrow> bool" where
  "isEnumLikeClass cls =
     (let hasDataFields = (0 < length (c_dataFields cls));
          hasMethods = (0 < length (c_fields cls));
          hasIndexSigs = (0 < length (c_indexSignatures cls))
      in if \<not> hasDataFields \<or> hasMethods \<or> hasIndexSigs then False
         else list_all (\<lambda>field. let fieldType = trim (toLowerCase (d_type field))
                                in \<not> (fieldType \<noteq> ''number'' \<and> fieldType \<noteq> ''integer''))
                       (c_dataFields cls))"

definition descriptionComment :: "string option \<Rightarrow> string list" where
  \<comment> \<open>\<^verbatim>\<open>if (field.description) lines.push(`  /** ${field.description} */`)\<close>\<close>
  "descriptionComment d =
     (case d of None \<Rightarrow> [] | Some t \<Rightarrow> if t = [] then [] else [''  /** '' @ t @ '' */''])"

definition generateEnum :: "string \<Rightarrow> ParsedClass \<Rightarrow> string list" where
  "generateEnum className cls =
     [''declare enum '' @ className @ '' {'']
     @ concat (map (\<lambda>field. descriptionComment (d_description field) @ [''  '' @ d_name field @ '',''])
                   (c_dataFields cls))
     @ [''}'']"

section \<open>Declaration generation\<close>

definition RESERVED_METHOD_NAMES :: "string list" where
  "RESERVED_METHOD_NAMES = [''new'', ''delete'', ''default'', ''class'', ''function'', ''return'',
     ''typeof'', ''import'', ''export'']"

definition methodLine :: "ParsedField \<Rightarrow> string" where
  \<comment> \<open>the signature line of one method in \<^verbatim>\<open>generateInterface\<close>\<close>
  "methodLine field =
     (let funType = parseFunType (f_type field);
          methodSig0 = replaceAt (Lit ''('') [] funType;
          methodSig = (case lastIndexOf methodSig0 '') => '' of
                         None \<Rightarrow> methodSig0
                       | Some lastArrowIdx \<Rightarrow>
                           slice methodSig0 0 (int lastArrowIdx) @ ''): ''
                           @ sliceFrom methodSig0 (int lastArrowIdx + 5));
          methodName = (if f_name field \<in> set RESERVED_METHOD_NAMES
                        then [CHR 0x22] @ f_name field @ [CHR 0x22] else f_name field)
      in ''  '' @ methodName @ ''('' @ methodSig @ '';'')"

definition generateInterface :: "string \<Rightarrow> ParsedClass \<Rightarrow> string list \<Rightarrow> string list" where
  \<comment> \<open>the assignment to the global \<^verbatim>\<open>currentClassName\<close>, which nothing reads, is left out\<close>
  "generateInterface className cls enumClasses =
     [''interface '' @ className @ '' {'']
     @ map (\<lambda>sig. ''  [key: '' @ convertLuaTypeToTS (keyType sig) @ '']: ''
                    @ convertLuaTypeToTS (valueType sig) @ '';'') (c_indexSignatures cls)
     @ concat (map (\<lambda>field.
          descriptionComment (d_description field) @
          [let tsType0 = convertLuaTypeToTS (d_type field);
               tsType = (if tsType0 \<in> set enumClasses then ''typeof '' @ tsType0 else tsType0);
               optMark = (if d_optional field then ''?'' else [])
           in ''  '' @ d_name field @ optMark @ '': '' @ tsType @ '';'']) (c_dataFields cls))
     @ concat (map (\<lambda>field. descriptionComment (f_description field) @ [methodLine field])
                   (c_fields cls))
     @ [''}'']"

definition convertLuaAliasToTS :: "string \<Rightarrow> string" where
  "convertLuaAliasToTS luaType0 =
     (let luaType = trim luaType0 in
      if startsWith luaType ''{'' \<and> endsWith luaType ''}'' then
        (let inner = trim (slice luaType 1 (-1)) in
         if inner = [] then ''{}''
         else ''{ '' @ join ''; ''
                (List.map_filter
                   (\<lambda>part. case indexOf part '':'' of
                              None \<Rightarrow> None
                            | Some colonIdx \<Rightarrow>
                                Some (trim (slice part 0 (int colonIdx)) @ '': '' @
                                      convertLuaTypeToTS (trim (sliceFrom part (int colonIdx + 1)))))
                   (splitByComma inner))
              @ '' }'')
      else if includesStr luaType ''|'' \<and> includesStr luaType ''fun('' then
        join '' | '' (uniq []
          (map (\<lambda>p. let trimmed = trim p in
                      if startsWith trimmed ''fun('' \<or> startsWith trimmed ''fun ''
                      then ''('' @ parseFunType trimmed @ '')''
                      else convertLuaTypeToTS trimmed) (splitUnion luaType)))
      else convertLuaTypeToTS luaType)"

definition resolveMainExport ::
  "ModuleConfig \<Rightarrow> string option \<Rightarrow> (string \<times> ParsedClass) list \<Rightarrow> string option" where
  \<comment> \<open>\<^verbatim>\<open>let mainExport = config.mainExport; if (!mainExport && detectedMainExport &&
      filteredClasses.has(detectedMainExport)) mainExport = detectedMainExport;\<close>\<close>
  "resolveMainExport config detected filteredClasses =
     (if \<not> truthy (m_mainExport config) \<and> truthy detected
         \<and> (case detected of None \<Rightarrow> False | Some d \<Rightarrow> map_of filteredClasses d \<noteq> None)
      then detected else m_mainExport config)"

definition headerLines :: "ModuleConfig \<Rightarrow> string list" where
  "headerLines config =
     [''// Auto-generated from Sylvanas API'', ''// Source: '' @ m_file config,
      ''// Do not edit manually'', []]"

definition aliasLines :: "(string \<times> Alias) list \<Rightarrow> string list" where
  "aliasLines als =
     (if 0 < length als
      then map (\<lambda>e. ''type '' @ fst e @ '' = '' @ convertLuaAliasToTS (a_type (snd e)) @ '';'') als @ [[]]
      else [])"

definition enumNames :: "(string \<times> ParsedClass) list \<Rightarrow> string list" where
  \<comment> \<open>the first pass: the \<^verbatim>\<open>Set\<close> \<^verbatim>\<open>enumClasses\<close> of the names of the enum-like classes\<close>
  "enumNames filteredClasses = map fst (filter (\<lambda>e. isEnumLikeClass (snd e)) filteredClasses)"

definition enumLines :: "(string \<times> ParsedClass) list \<Rightarrow> string list \<Rightarrow> string list" where
  "enumLines filteredClasses enumClasses =
     concat (map (\<lambda>e. if fst e \<in> set enumClasses then generateEnum (fst e) (snd e) @ [[]] else [])
                 filteredClasses)"

definition interfaceLines :: "(string \<times> ParsedClass) list \<Rightarrow> string list \<Rightarrow> string list" where
  "interfaceLines filteredClasses enumClasses =
     concat (map (\<lambda>e. if fst e \<notin> set enumClasses
                       then generateInterface (fst e) (snd e) enumClasses @ [[]] else [])
                 filteredClasses)"

definition globalVarLines :: "ModuleConfig \<Rightarrow> string option \<Rightarrow> string list" where
  "globalVarLines config mainExport =
     (case mainExport of
        Some x \<Rightarrow>
          if m_declareGlobalVar config \<and> x \<noteq> []
          then [''// Global variable declaration'', ''declare const '' @ x @ '': '' @ x @ '';'', []]
          else []
      | None \<Rightarrow> [])"

definition moduleLines :: "string \<Rightarrow> string option \<Rightarrow> string list" where
  "moduleLines modulePath mainExport =
     (case mainExport of
        Some x \<Rightarrow>
          if x \<noteq> []
          then [''// Module declaration for imports'',
                ''declare module '' @ [CHR 0x22] @ modulePath @ [CHR 0x22] @ '' {'',
                ''  const _default: '' @ x @ '';'', ''  export = _default;'', ''}'', []]
          else []
      | None \<Rightarrow> [])"

definition generateDeclaration :: "string \<Rightarrow> ModuleConfig \<Rightarrow> ParseResult \<Rightarrow> string" where
  "generateDeclaration modulePath config parseResult =
     (let filteredClasses = filterClasses (classes parseResult) (m_filterClasses config);
          enumClasses = enumNames filteredClasses;
          mainExport = resolveMainExport config (detectedMainExport parseResult) filteredClasses
      in join [CHR 0x0A]
           (headerLines config
            @ aliasLines (aliases parseResult)
            @ enumLines filteredClasses enumClasses
            @ interfaceLines filteredClasses enumClasses
            @ globalVarLines config mainExport
            @ moduleLines modulePath mainExport))"

section \<open>Post-processing\<close>

function replaceAll :: "regex \<Rightarrow> repl list \<Rightarrow> string \<Rightarrow> string" where
  \<comment> \<open>\<^verbatim>\<open>s.replace(/r/g, t)\<close>: after an empty match the search moves on by one character\<close>
  "replaceAll r t s =
     (case rx_search r s of
        None \<Rightarrow> s
      | Some (i, rest, c) \<Rightarrow>
          take i s @ expand t c @
          (if length rest < length (drop i s) then replaceAll r t rest
           else (case rest of [] \<Rightarrow> [] | x # xs \<Rightarrow> x # replaceAll r t xs)))"
  by pat_completeness auto
termination
proof (relation "measure (\<lambda>(r, t, s). length s)", goal_cases)
  case 1
  show ?case by simp
next
  case (2 r t s p i q rest c)
  then show ?case by simp
next
  case (3 r t s p i q rest c x xs)
  from rx_search_Some[of r s i "(rest, c)"] 3 have "rx_at r (drop i s) = Some (rest, c)" by simp
  from rx_at_length[OF this] 3 show ?case by simp
qed

declare replaceAll.simps [simp del]



definition postProcessSpellSequenceHelper :: "string \<Rightarrow> string" where
  "postProcessSpellSequenceHelper content =
     replaceAll
       (seqs [Lit ('': string '' @ [CHR 0x22]), Group 1 (Plus1 (NotChars [One CHR 0x22])),
              Lit ([CHR 0x22] @ '';'')])
       [Txt ('': '' @ [CHR 0x22]), Ref 1, Txt ([CHR 0x22] @ '';'')]
       (replaceAll (Lit ''game_object | (this: void) => game_object'')
          [Txt ''game_object | ((this: void) => game_object)''] content)"














section \<open>Statements of the specification\<close>

text \<open>
  Two notions that the specification states in its own words and the source does not name.
\<close>

definition unrecognized :: "string \<Rightarrow> bool" where
  \<comment> \<open>none of the tests of \<^verbatim>\<open>convertLuaTypeToTS\<close> holds of the cleaned expression\<close>
  "unrecognized l =
     (l \<noteq> [] \<and> l \<noteq> ''nil''
      \<and> \<not> (endsWith l ''| nil'' \<or> endsWith l ''|nil'')
      \<and> \<not> (l = ''number'' \<or> l = ''integer'') \<and> l \<noteq> ''string'' \<and> l \<noteq> ''boolean''
      \<and> l \<noteq> ''any'' \<and> l \<noteq> ''userdata'' \<and> l \<noteq> ''table'' \<and> l \<noteq> ''function''
      \<and> \<not> (endsWith l ''?'' \<and> \<not> includesStr l ''|'')
      \<and> \<not> (includesStr l ''|'' \<and> 1 < length (splitUnion l))
      \<and> \<not> (startsWith l ''('' \<and> endsWith l '')'')
      \<and> rx_at arrayRe l = None
      \<and> \<not> (startsWith l ''table<'' \<and> endsWith l ''>''
             \<and> length (splitByComma (slice l 6 (-1))) = 2)
      \<and> \<not> (startsWith l ''fun('' \<or> startsWith l ''fun ''))"

definition enumLikeBySpec :: "ParsedClass \<Rightarrow> bool" where
  \<comment> \<open>the specification's words: at least one data field, no method, no index signature, and
      the translated type of every data field is the numeric primitive\<close>
  "enumLikeBySpec cls =
     (c_dataFields cls \<noteq> [] \<and> c_fields cls = [] \<and> c_indexSignatures cls = []
      \<and> list_all (\<lambda>field. convertLuaTypeToTS (d_type field) = ''number'') (c_dataFields cls))"


definition isFunctionDecl :: "string \<Rightarrow> bool" where
  \<comment> \<open>a line that one of the two declaration branches takes\<close>
  "isFunctionDecl line =
     (rx_at funcDeclRe (trim line) \<noteq> None \<or> rx_at funcColonRe (trim line) \<noteq> None)"

definition isParamDirective :: "string \<Rightarrow> bool" where
  \<comment> \<open>a doc-comment line whose content is a \<^verbatim>\<open>@param\<close> directive\<close>
  "isParamDirective line =
     (startsWith (trim line) ''---''
      \<and> rx_at paramRe (replaceAt docMarkerRe [] (trim line)) \<noteq> None)"

definition flushes :: "string \<Rightarrow> bool" where
  \<comment> \<open>a line that is no doc comment, not blank, no plain comment, no \<^verbatim>\<open>_G.\<close> assignment and no
      declaration form\<close>
  "flushes line =
     (\<not> startsWith (trim line) ''---'' \<and> trim line \<noteq> [] \<and> \<not> startsWith (trim line) ''--''
      \<and> \<not> startsWith (trim line) ''_G.'' \<and> \<not> isFunctionDecl line
      \<and> rx_at subclassAssignRe (trim line) = None)"

definition forget :: "Parser \<Rightarrow> Parser" where
  \<comment> \<open>a parser state without its pending parameters\<close>
  "forget st = st\<lparr>pendingParams := []\<rparr>"





text \<open>
  The nesting depth the splitter has reached after a text, and the positions of a text that hold
  a \<^verbatim>\<open>|\<close> at depth zero.
\<close>

fun depthFrom :: "int \<Rightarrow> string \<Rightarrow> int" where
  \<comment> \<open>the nesting depth after a text, from the depth before it\<close>
  "depthFrom d [] = d"
| "depthFrom d (ch # cs) =
     depthFrom (if isOpener ch then d + 1 else if isCloser ch then d - 1 else d) cs"

definition topLevelBar :: "string \<Rightarrow> nat \<Rightarrow> bool" where
  \<comment> \<open>position \<open>i\<close> of \<open>s\<close> holds a bar at nesting depth zero\<close>
  "topLevelBar s i = (i < length s \<and> s ! i = CHR ''|'' \<and> depthFrom 0 (take i s) = 0)"

text \<open>
  The declaration unit in the specification's words: the main export it resolves, and the five
  steps in their order.
\<close>

definition named :: "string option \<Rightarrow> string option" where
  \<comment> \<open>a name that is given: absent and empty names are no name\<close>
  "named v = (case v of None \<Rightarrow> None | Some s \<Rightarrow> if s = [] then None else Some s)"

definition mainExportBySpec :: "ModuleConfig \<Rightarrow> ParseResult \<Rightarrow> string option" where
  \<comment> \<open>the specification's words: the configured main export, else the detected one if it names
      a class that is present after filtering, else none\<close>
  "mainExportBySpec config pr =
     (case named (m_mainExport config) of
        Some m \<Rightarrow> Some m
      | None \<Rightarrow>
          (case named (detectedMainExport pr) of
             None \<Rightarrow> None
           | Some d \<Rightarrow>
               if d \<in> fst ` set (filterClasses (classes pr) (m_filterClasses config))
               then Some d else None))"

definition aliasesStep :: "ParseResult \<Rightarrow> string list" where
  \<comment> \<open>step 1: one type declaration for each alias, then a blank line if there is any\<close>
  "aliasesStep pr =
     (if aliases pr = [] then []
      else map (\<lambda>e. ''type '' @ fst e @ '' = '' @ convertLuaAliasToTS (a_type (snd e)) @ '';'')
               (aliases pr) @ [[]])"

definition enumsStep :: "(string \<times> ParsedClass) list \<Rightarrow> string list" where
  \<comment> \<open>step 2: the enumeration of each enum-like class, each followed by a blank line\<close>
  "enumsStep cs =
     concat (map (\<lambda>e. generateEnum (fst e) (snd e) @ [[]])
                 (filter (\<lambda>e. isEnumLikeClass (snd e)) cs))"

definition interfacesStep :: "(string \<times> ParsedClass) list \<Rightarrow> string list" where
  \<comment> \<open>step 3: the interface of each remaining class, each followed by a blank line\<close>
  "interfacesStep cs =
     concat (map (\<lambda>e. generateInterface (fst e) (snd e) (enumNames cs) @ [[]])
                 (filter (\<lambda>e. \<not> isEnumLikeClass (snd e)) cs))"

definition globalStep :: "string \<Rightarrow> string list" where
  \<comment> \<open>step 4: the global binding of the main export\<close>
  "globalStep x = [''// Global variable declaration'', ''declare const '' @ x @ '': '' @ x @ '';'', []]"

definition moduleStep :: "string \<Rightarrow> string \<Rightarrow> string list" where
  \<comment> \<open>step 5: the module binding of the main export\<close>
  "moduleStep modulePath x =
     [''// Module declaration for imports'',
      ''declare module '' @ [CHR 0x22] @ modulePath @ [CHR 0x22] @ '' {'',
      ''  const _default: '' @ x @ '';'', ''  export = _default;'', ''}'', []]"

definition unitBySpec :: "string \<Rightarrow> ModuleConfig \<Rightarrow> ParseResult \<Rightarrow> string list" where
  \<comment> \<open>the lines of a declaration unit, as the specification orders them\<close>
  "unitBySpec modulePath config pr =
     (let cs = filterClasses (classes pr) (m_filterClasses config) in
      headerLines config @ aliasesStep pr @ enumsStep cs @ interfacesStep cs
      @ (case mainExportBySpec config pr of
           None \<Rightarrow> []
         | Some x \<Rightarrow> (if m_declareGlobalVar config then globalStep x else [])
                     @ moduleStep modulePath x))"

section \<open>The enum classifier\<close>

text \<open>
  C2, as the code has it. \<^verbatim>\<open>isEnumLikeClass\<close> is true of a class exactly when it has at least one
  data field, no method, no index signature, and the source type of every data field, in
  lower case and trimmed, is \<^verbatim>\<open>number\<close> or \<^verbatim>\<open>integer\<close>. In particular a class with no
  method, no index signature and two data fields typed \<^verbatim>\<open>integer\<close> is enum-like, and the same
  class with one method is not.
\<close>

theorem isEnumLikeClass_source_type:
  "(isEnumLikeClass cls \<longleftrightarrow>
      c_dataFields cls \<noteq> [] \<and> c_fields cls = [] \<and> c_indexSignatures cls = []
      \<and> (\<forall>field \<in> set (c_dataFields cls).
            trim (toLowerCase (d_type field)) = ''number''
            \<or> trim (toLowerCase (d_type field)) = ''integer''))
   \<and> (d_type a = ''integer'' \<and> d_type b = ''integer'' \<longrightarrow>
        isEnumLikeClass \<lparr>c_name = n, c_fields = [], c_dataFields = [a, b], c_indexSignatures = []\<rparr>
        \<and> \<not> isEnumLikeClass \<lparr>c_name = n, c_fields = [m], c_dataFields = [a, b],
                               c_indexSignatures = []\<rparr>)"
proof -
  have i: "trim (toLowerCase ''integer'') = ''integer''" by code_simp
  show ?thesis
    by (auto simp add: isEnumLikeClass_def Let_def list_all_iff i)
qed


text \<open>
  C2, witness: the class \<^verbatim>\<open>quality\<close> with the data fields \<^verbatim>\<open>poor\<close> and \<^verbatim>\<open>rare\<close>, both
  \<^verbatim>\<open>integer\<close>, without and with the method \<^verbatim>\<open>get\<close>.
\<close>

theorem isEnumLikeClass_source_type_witness:
  "isEnumLikeClass \<lparr>c_name = ''quality'', c_fields = [],
      c_dataFields = [\<lparr>d_name = ''poor'', d_type = ''integer'', d_description = None, d_optional = False\<rparr>,
                      \<lparr>d_name = ''rare'', d_type = ''integer'', d_description = None, d_optional = False\<rparr>],
      c_indexSignatures = []\<rparr>
   \<and> \<not> isEnumLikeClass \<lparr>c_name = ''quality'',
      c_fields = [\<lparr>f_name = ''get'', f_type = ''fun(): integer'', f_description = None, f_isMethod = True\<rparr>],
      c_dataFields = [\<lparr>d_name = ''poor'', d_type = ''integer'', d_description = None, d_optional = False\<rparr>,
                      \<lparr>d_name = ''rare'', d_type = ''integer'', d_description = None, d_optional = False\<rparr>],
      c_indexSignatures = []\<rparr>"
  using isEnumLikeClass_source_type[where
      a = "\<lparr>d_name = ''poor'', d_type = ''integer'', d_description = None, d_optional = False\<rparr>" and
      b = "\<lparr>d_name = ''rare'', d_type = ''integer'', d_description = None, d_optional = False\<rparr>" and
      n = "''quality''" and
      m = "\<lparr>f_name = ''get'', f_type = ''fun(): integer'', f_description = None, f_isMethod = True\<rparr>",
      THEN conjunct2]
  by simp


text \<open>
  C2, as the specification states it, fails: the test reads the source type without regard
  to case, not the translated type. A data field typed \<^verbatim>\<open>Number\<close> makes a class enum-like,
  and \<^verbatim>\<open>Number\<close> is translated to itself, which is not the numeric primitive.
\<close>

theorem isEnumLikeClass_translated_type_counterexample:
  "isEnumLikeClass \<lparr>c_name = ''E'', c_fields = [],
      c_dataFields = [\<lparr>d_name = ''A'', d_type = ''Number'', d_description = None, d_optional = False\<rparr>],
      c_indexSignatures = []\<rparr>
   \<and> \<not> enumLikeBySpec \<lparr>c_name = ''E'', c_fields = [],
      c_dataFields = [\<lparr>d_name = ''A'', d_type = ''Number'', d_description = None, d_optional = False\<rparr>],
      c_indexSignatures = []\<rparr>
   \<and> convertLuaTypeToTS ''Number'' = ''Number''"
  by code_simp


section \<open>Termination of the translator\<close>

text \<open>
  The call relation of the definition: \<open>convertLuaTypeToTS_parseFunType_rel y x\<close> holds when
  the evaluation of \<open>x\<close> calls \<open>y\<close>. Every call decreases \<open>tmeasure\<close>.
\<close>

lemma translator_calls_decrease:
  "convertLuaTypeToTS_parseFunType_rel y x \<Longrightarrow> (y, x) \<in> measure tmeasure"
proof (induction rule: convertLuaTypeToTS_parseFunType_rel.induct)
  case (1 l0 x)
  then show ?case by (intro call_nullable) auto
next
  case (2 l0 x)
  then show ?case by (intro call_slice) auto
next
  case (3 l0 x xa)
  then show ?case by (intro call_union[of x]) auto
next
  case (4 l0 x xa)
  then show ?case by (intro call_comma[of x l0 1]) auto
next
  case (5 l0 x)
  then show ?case by (intro call_slice) auto
next
  case (6 l0 x)
  then show ?case by (intro call_table) auto
next
  case (7 l0 x)
  then show ?case by (intro call_table) auto
next
  case (8 l0 x)
  then show ?case by (intro call_parseFunType) auto
next
  case (9 l0 x m)
  then show ?case by (intro call_array) auto
next
  case (10 l st e ps rest xb)
  then show ?case by (intro call_returns[of rest l "int e + 1"]) auto
next
  case (11 l st e ps rest)
  then show ?case by (intro call_return[of rest l "int e + 1"]) auto
next
  case (12 l st e ps rest rt params p)
  then show ?case by (intro call_param[of l st e]) auto
qed

lemma translator_dom: "convertLuaTypeToTS_parseFunType_dom x"
proof -
  have "wf {(y, x). convertLuaTypeToTS_parseFunType_rel y x}"
    by (rule wf_subset[OF wf_measure[of tmeasure]]) (auto dest: translator_calls_decrease)
  then have "wfp convertLuaTypeToTS_parseFunType_rel" by (simp add: wfp_def)
  then show ?thesis by (simp add: wfp_iff_accp)
qed

lemma convert_passthrough:
  "unrecognized (cleanType luaType) \<Longrightarrow> convertLuaTypeToTS luaType = cleanType luaType"
  apply (subst convertLuaTypeToTS.simps)
  apply (unfold unrecognized_def Let_def)
  apply (elim conjE)
  apply (simp only: if_False option.case simp_thms)
  done


text \<open>
  C9. \<^verbatim>\<open>convertLuaTypeToTS\<close> terminates on every string. The domain predicate of the
  definition is the accessible part of its call relation: \<open>convertLuaTypeToTS_parseFunType_rel y x\<close>
  holds when the evaluation of \<open>x\<close> calls \<open>y\<close>, with \<open>Inl\<close> for an argument of
  \<^verbatim>\<open>convertLuaTypeToTS\<close> and \<open>Inr\<close> for one of \<^verbatim>\<open>parseFunType\<close>. Every input is in the domain;
  every argument \<^verbatim>\<open>convertLuaTypeToTS\<close> passes to itself, directly or through its call of
  \<^verbatim>\<open>parseFunType\<close>, is strictly shorter than the input; and an expression that no test
  recognises is returned as it is, cleaned of white space and comment.
\<close>

theorem convertLuaTypeToTS_terminates:
  "convertLuaTypeToTS_parseFunType_dom (Inl luaType)
   \<and> (\<forall>t. convertLuaTypeToTS_parseFunType_rel (Inl t) (Inl luaType) \<longrightarrow> length t < length luaType)
   \<and> (\<forall>f t. convertLuaTypeToTS_parseFunType_rel (Inr f) (Inl luaType)
            \<and> convertLuaTypeToTS_parseFunType_rel (Inl t) (Inr f) \<longrightarrow> length t < length luaType)
   \<and> (unrecognized (cleanType luaType) \<longrightarrow> convertLuaTypeToTS luaType = cleanType luaType)"
proof (intro conjI allI impI)
  show "convertLuaTypeToTS_parseFunType_dom (Inl luaType)" by (rule translator_dom)
next
  fix t assume "convertLuaTypeToTS_parseFunType_rel (Inl t) (Inl luaType)"
  from translator_calls_decrease[OF this] show "length t < length luaType"
    by (simp add: tmeasure_def)
next
  fix f t
  assume a: "convertLuaTypeToTS_parseFunType_rel (Inr f) (Inl luaType)
             \<and> convertLuaTypeToTS_parseFunType_rel (Inl t) (Inr f)"
  from a translator_calls_decrease[of "Inr f" "Inl luaType"]
    translator_calls_decrease[of "Inl t" "Inr f"]
  show "length t < length luaType"
    by (simp add: tmeasure_def split: if_splits)
next
  assume "unrecognized (cleanType luaType)"
  then show "convertLuaTypeToTS luaType = cleanType luaType" by (rule convert_passthrough)
qed


text \<open>
  C9, witness: on \<^verbatim>\<open>number[]\<close> the array rule calls the translator on \<^verbatim>\<open>number\<close>, and
  \<^verbatim>\<open>vec3\<close> is passed through.
\<close>

theorem convertLuaTypeToTS_terminates_witness:
  "convertLuaTypeToTS_parseFunType_rel (Inl ''number'') (Inl ''number[]'')
   \<and> convertLuaTypeToTS_parseFunType_dom (Inl ''number[]'')
   \<and> length ''number'' < length ''number[]''
   \<and> unrecognized (cleanType '' vec3 '')
   \<and> convertLuaTypeToTS '' vec3 '' = ''vec3''"
proof -
  have "convertLuaTypeToTS_parseFunType_rel
          (Inl (grp (snd ([] :: string, [(1 :: nat, ''number'')])) 1)) (Inl ''number[]'')"
    by (rule convertLuaTypeToTS_parseFunType_rel.intros(9)[where x="''number[]''"]; code_simp)
  then have r: "convertLuaTypeToTS_parseFunType_rel (Inl ''number'') (Inl ''number[]'')"
    by (simp add: grp_def)
  have u: "unrecognized (cleanType '' vec3 '')" by code_simp
  have c: "cleanType '' vec3 '' = ''vec3''" by code_simp
  from r u c convertLuaTypeToTS_terminates[of "''number[]''"]
    convertLuaTypeToTS_terminates[of "'' vec3 ''"]
  show ?thesis by simp
qed

section \<open>Post-processing is scoped to its module\<close>







text \<open>The patch of \<^verbatim>\<open>common/utility/spell_sequence_helper\<close> is not idempotent either.\<close>

lemma spell_sequence_patch_not_idempotent:
  "postProcessSpellSequenceHelper
     (postProcessSpellSequenceHelper
        ('': string '' @ [CHR 0x22] @ ''a: string '' @ [CHR 0x22] @ '';b'' @ [CHR 0x22] @ '';''))
   \<noteq> postProcessSpellSequenceHelper
        ('': string '' @ [CHR 0x22] @ ''a: string '' @ [CHR 0x22] @ '';b'' @ [CHR 0x22] @ '';'')"
  by code_simp


section \<open>Method declarations\<close>

text \<open>
  C1. The collision rule is what the \<^verbatim>\<open>@field\<close> branch does: a second \<^verbatim>\<open>@field bar\<close> with a
  receiver replaces a first one without. The two branches for declaration lines push without
  looking for a field of the same name: \<^verbatim>\<open>function foo.bar()\<close> followed by
  \<^verbatim>\<open>function foo:bar()\<close> leaves two methods \<^verbatim>\<open>bar\<close> on \<^verbatim>\<open>foo\<close>, in either order.
\<close>

theorem method_declarations_append:
  "parseApiFile (''function foo.bar()'' @ [CHR 0x0A] @ ''function foo:bar()'')
     = Inr \<lparr>classes = [(''foo'', \<lparr>c_name = ''foo'',
          c_fields = [\<lparr>f_name = ''bar'', f_type = ''fun(): void'', f_description = None, f_isMethod = True\<rparr>,
                      \<lparr>f_name = ''bar'', f_type = ''fun(self: foo): void'', f_description = None,
                       f_isMethod = True\<rparr>],
          c_dataFields = [], c_indexSignatures = []\<rparr>)],
        aliases = [], detectedMainExport = None\<rparr>
   \<and> parseApiFile (''function foo:bar()'' @ [CHR 0x0A] @ ''function foo.bar()'')
     = Inr \<lparr>classes = [(''foo'', \<lparr>c_name = ''foo'',
          c_fields = [\<lparr>f_name = ''bar'', f_type = ''fun(self: foo): void'', f_description = None,
                       f_isMethod = True\<rparr>,
                      \<lparr>f_name = ''bar'', f_type = ''fun(): void'', f_description = None, f_isMethod = True\<rparr>],
          c_dataFields = [], c_indexSignatures = []\<rparr>)],
        aliases = [], detectedMainExport = None\<rparr>
   \<and> parseApiFile (''--- @class foo'' @ [CHR 0x0A] @ ''--- @field bar fun()'' @ [CHR 0x0A]
                     @ ''--- @field bar fun(self: foo)'')
     = Inr \<lparr>classes = [(''foo'', \<lparr>c_name = ''foo'',
          c_fields = [\<lparr>f_name = ''bar'', f_type = ''fun(self: foo)'', f_description = None,
                       f_isMethod = True\<rparr>],
          c_dataFields = [], c_indexSignatures = []\<rparr>)],
        aliases = [], detectedMainExport = None\<rparr>"
  by code_simp

section \<open>Lines of the annotation parser\<close>

subsection \<open>Which expression can match which line\<close>

lemma seqs_Cons: "seqs (r # rs) = Seq r (seqs rs)"
  by (simp add: seqs_def)

lemma rx_at_Lit_prefix: "rx_at (Seq (Lit l) r) s = Some m \<Longrightarrow> startsWith s l"
  by (auto simp add: rx_at_def startsWith_def split: list.splits if_splits)

lemma startsWith_clash:
  assumes "startsWith s p" "startsWith s q"
  shows "take (min (length p) (length q)) p = take (min (length p) (length q)) q"
proof -
  from assms have p: "take (length p) s = p" and q: "take (length q) s = q"
    by (simp_all add: startsWith_def)
  have "take (min (length p) (length q)) p = take (min (length p) (length q)) (take (length p) s)"
    by (simp only: p)
  also have "\<dots> = take (min (length p) (length q)) (take (length q) s)"
    by (simp add: min_def)
  also have "\<dots> = take (min (length p) (length q)) q" by (simp only: q)
  finally show ?thesis .
qed

lemma rx_at_Lit_clash:
  "startsWith s p \<Longrightarrow> take (min (length p) (length l)) p \<noteq> take (min (length p) (length l)) l
   \<Longrightarrow> rx_at (Seq (Lit l) r) s = None"
  using rx_at_Lit_prefix startsWith_clash by (metis not_Some_eq)

lemma field_prefix:
  "rx_at indexSigRe s \<noteq> None \<or> rx_at fieldRe s \<noteq> None \<Longrightarrow> startsWith s ''@field''"
  by (auto simp add: indexSigRe_def fieldRe_def seqs_Cons dest: rx_at_Lit_prefix)

lemma doc_not_function:
  "startsWith s ''---'' \<Longrightarrow> rx_at funcDeclRe s = None \<and> rx_at funcColonRe s = None"
  by (simp add: funcDeclRe_def funcColonRe_def seqs_Cons rx_at_Lit_clash[of s "''---''"])

lemma field_not_other:
  "startsWith s ''@field'' \<Longrightarrow>
     rx_at typeRe s = None \<and> rx_at aliasRe s = None \<and> rx_at classRe s = None
     \<and> rx_at paramRe s = None \<and> rx_at returnRe s = None"
  by (simp add: typeRe_def aliasRe_def classRe_def paramRe_def returnRe_def seqs_Cons
      rx_at_Lit_clash[of s "''@field''"])

lemma whenActive_None: "currentClass st = None \<Longrightarrow> whenActive st m = None"
  by (simp add: whenActive_def split: option.splits)


text \<open>
  C10. While no \<^verbatim>\<open>@class\<close> directive has set the current class, a doc-comment line whose
  content is a \<^verbatim>\<open>@field\<close> directive, in the index-signature form or in the named form, leaves
  the whole state of the parser as it is: no class, field, data field or index signature is
  recorded and nothing is added to the pending description. The parse goes on as if the line
  were not there.
\<close>

theorem orphan_field_is_noop:
  assumes "currentClass st = None"
    and "startsWith (trim line) ''---''"
    and "rx_at indexSigRe (replaceAt docMarkerRe [] (trim line)) \<noteq> None
         \<or> rx_at fieldRe (replaceAt docMarkerRe [] (trim line)) \<noteq> None"
  shows "step st line = Inr st \<and> parseLines st (line # ls) = parseLines st ls"
proof -
  let ?c = "replaceAt docMarkerRe [] (trim line)"
  from field_prefix[OF assms(3)] have f: "startsWith ?c ''@field''" .
  then have "startsWith ?c (''@'' @ ''field'')" by simp
  then have at: "startsWith ?c ''@''" by (rule startsWith_append)
  have d: "docLine st ?c = Inr st"
    using field_not_other[OF f] at
    by (simp add: docLine_def descriptionLine_def whenActive_None[OF assms(1)])
  have "step st line = Inr st"
    using doc_not_function[OF assms(2)] assms(2) d
    by (simp add: step_def Let_def whenActive_None[OF assms(1)])
  then show ?thesis by simp
qed


text \<open>
  C10, witness: at the start of a file, one directive of each form; the result has no class.
\<close>

theorem orphan_field_is_noop_witness:
  "currentClass initialParser = None
   \<and> startsWith (trim ''--- @field x number'') ''---''
   \<and> rx_at fieldRe (replaceAt docMarkerRe [] (trim ''--- @field x number'')) \<noteq> None
   \<and> startsWith (trim ''---@field [string] number'') ''---''
   \<and> rx_at indexSigRe (replaceAt docMarkerRe [] (trim ''---@field [string] number'')) \<noteq> None
   \<and> step initialParser ''--- @field x number'' = Inr initialParser
   \<and> step initialParser ''---@field [string] number'' = Inr initialParser
   \<and> parseApiFile (''--- @field x number'' @ [CHR 0x0A] @ ''---@field [string] number'')
       = Inr \<lparr>classes = [], aliases = [], detectedMainExport = None\<rparr>"
proof -
  have a: "currentClass initialParser = None" by (simp add: initialParser_def)
  have b: "startsWith (trim ''--- @field x number'') ''---''" by code_simp
  have c: "rx_at fieldRe (replaceAt docMarkerRe [] (trim ''--- @field x number'')) \<noteq> None"
    by code_simp
  have d: "startsWith (trim ''---@field [string] number'') ''---''" by code_simp
  have e: "rx_at indexSigRe (replaceAt docMarkerRe [] (trim ''---@field [string] number'')) \<noteq> None"
    by code_simp
  have l: "splitOn CHR 0x0A (''--- @field x number'' @ [CHR 0x0A] @ ''---@field [string] number'')
           = [''--- @field x number'', ''---@field [string] number'']" by code_simp
  have r: "resultOf initialParser = \<lparr>classes = [], aliases = [], detectedMainExport = None\<rparr>"
    by (simp add: resultOf_def initialParser_def)
  from orphan_field_is_noop[OF a b, of "[''---@field [string] number'']"] c
    orphan_field_is_noop[OF a d, of "[]"] e a b d l r
  show ?thesis by (simp add: parseApiFile_def)
qed

subsection \<open>The flush rule\<close>

lemma not_Some_pair [simp]: "(\<forall>a b. x \<noteq> Some (a, b)) \<longleftrightarrow> x = None"
  by (cases x) auto

lemma map_of_ensureClass: "map_of (ensureClass n cs) n \<noteq> None"
  by (simp add: ensureClass_def update_conv')

lemma subclassAssign_classes:
  "\<exists>cs. subclassAssign st m cur = Inr (st\<lparr>classes := cs\<rparr>)"
  using map_of_ensureClass[of "grp m 1" "classes st"]
  by (auto simp add: subclassAssign_def Let_def split: option.splits)

lemma noop_not_function:
  assumes "t = [] \<or> startsWith t ''--'' \<or> startsWith t ''_G.''"
  shows "rx_at funcDeclRe t = None \<and> rx_at funcColonRe t = None"
proof -
  have e: "rx_at funcDeclRe [] = None \<and> rx_at funcColonRe [] = None"
    by (simp add: funcDeclRe_def funcColonRe_def seqs_Cons rx_at_def)
  from assms e show ?thesis
    by (auto simp add: funcDeclRe_def funcColonRe_def seqs_Cons rx_at_Lit_clash[of t "''--''"]
        rx_at_Lit_clash[of t "''_G.''"])
qed

lemma step_noop:
  assumes "\<not> startsWith (trim line) ''---''"
    and "trim line = [] \<or> startsWith (trim line) ''--'' \<or> startsWith (trim line) ''_G.''"
  shows "\<exists>st'. step st line = Inr st' \<and> pendingParams st' = pendingParams st
           \<and> pendingReturn st' = pendingReturn st
           \<and> currentDescription st' = currentDescription st"
proof (cases "whenActive st (rx_at subclassAssignRe (trim line))")
  case None
  with noop_not_function[OF assms(2)] assms show ?thesis
    by (auto simp add: step_def Let_def)
next
  case (Some a)
  obtain cur m where a: "a = (cur, m)" by (cases a)
  from subclassAssign_classes[of st "snd m" cur] obtain cs where
    "subclassAssign st (snd m) cur = Inr (st\<lparr>classes := cs\<rparr>)" by blast
  with Some a noop_not_function[OF assms(2)] show ?thesis
    by (simp add: step_def Let_def)
qed

lemma step_flush:
  assumes "\<not> startsWith (trim line) ''---''" "trim line \<noteq> []" "\<not> startsWith (trim line) ''--''"
    "\<not> startsWith (trim line) ''_G.''" "rx_at funcDeclRe (trim line) = None"
    "rx_at funcColonRe (trim line) = None" "whenActive st (rx_at subclassAssignRe (trim line)) = None"
  shows "step st line = Inr (st\<lparr>currentDescription := [], pendingParams := [], pendingReturn := None\<rparr>)"
  using assms by (simp add: step_def Let_def)

text \<open>Only the declaration branches read \<open>pendingParams\<close>.\<close>

lemma whenActive_pp [simp]: "whenActive (st\<lparr>pendingParams := pp\<rparr>) m = whenActive st m"
  by (simp add: whenActive_def split: option.splits)

lemma forget_pp [simp]: "forget (st\<lparr>pendingParams := pp\<rparr>) = forget st"
  by (simp add: forget_def)

lemma subclassAssign_pp:
  "map_sum id forget (subclassAssign (st\<lparr>pendingParams := pp\<rparr>) m cur)
   = map_sum id forget (subclassAssign st m cur)"
  by (simp add: subclassAssign_def Let_def forget_def split: option.splits)

lemma indexSigDirective_pp:
  "map_sum id forget (indexSigDirective (st\<lparr>pendingParams := pp\<rparr>) m cur)
   = map_sum id forget (indexSigDirective st m cur)"
  by (simp add: indexSigDirective_def Let_def forget_def split: option.splits)

lemma fieldDirective_pp:
  "map_sum id forget (fieldDirective (st\<lparr>pendingParams := pp\<rparr>) m cur)
   = map_sum id forget (fieldDirective st m cur)"
  by (simp add: fieldDirective_def Let_def forget_def split: option.splits)

lemma docLine_pp:
  "map_sum id forget (docLine (st\<lparr>pendingParams := pp\<rparr>) c) = map_sum id forget (docLine st c)"
  by (simp add: docLine_def paramDirective_def descriptionLine_def Let_def
      subclassAssign_pp indexSigDirective_pp fieldDirective_pp
      split: option.splits prod.splits)
     (simp add: forget_def)

lemma step_pp:
  assumes "\<not> isFunctionDecl line"
  shows "map_sum id forget (step (st\<lparr>pendingParams := pp\<rparr>) line) = map_sum id forget (step st line)"
proof -
  from assms have fd: "rx_at funcDeclRe (trim line) = None" "rx_at funcColonRe (trim line) = None"
    by (simp_all add: isFunctionDecl_def)
  show ?thesis
  proof (cases "whenActive st (rx_at subclassAssignRe (trim line))")
    case None
    then show ?thesis using fd by (simp add: step_def Let_def docLine_pp forget_def)
  next
    case (Some a)
    then show ?thesis using fd by (cases a) (simp add: step_def Let_def subclassAssign_pp)
  qed
qed

lemma step_pp_cases:
  assumes "\<not> isFunctionDecl line"
  shows "(\<exists>e. step (st\<lparr>pendingParams := pp\<rparr>) line = Inl e \<and> step st line = Inl e)
       \<or> (\<exists>s pp'. step (st\<lparr>pendingParams := pp\<rparr>) line = Inr (s\<lparr>pendingParams := pp'\<rparr>)
                     \<and> step st line = Inr s)"
proof (cases "step st line")
  case (Inl e)
  with step_pp[OF assms, where st=st and pp=pp] show ?thesis
    by (cases "step (st\<lparr>pendingParams := pp\<rparr>) line") auto
next
  case (Inr s)
  with step_pp[OF assms, where st=st and pp=pp] obtain s' where
    s': "step (st\<lparr>pendingParams := pp\<rparr>) line = Inr s'" "forget s' = forget s"
    by (cases "step (st\<lparr>pendingParams := pp\<rparr>) line") auto
  from s'(2) have "s' = s\<lparr>pendingParams := pendingParams s'\<rparr>"
    by (cases s, cases s') (simp add: forget_def)
  with s'(1) Inr show ?thesis by metis
qed

lemma parseLines_pp:
  assumes "\<forall>l \<in> set ls. \<not> isFunctionDecl l"
  shows "map_sum id resultOf (parseLines (st\<lparr>pendingParams := pp\<rparr>) ls)
         = map_sum id resultOf (parseLines st ls)"
  using assms
proof (induction ls arbitrary: st pp)
  case Nil
  show ?case by (simp add: resultOf_def)
next
  case (Cons l ls)
  then have nf: "\<not> isFunctionDecl l" and rest: "\<forall>l \<in> set ls. \<not> isFunctionDecl l" by simp_all
  from step_pp_cases[OF nf, where st=st and pp=pp] show ?case
  proof (elim disjE exE conjE)
    fix e assume "step (st\<lparr>pendingParams := pp\<rparr>) l = Inl e" "step st l = Inl e"
    then show ?thesis by simp
  next
    fix s pp'
    assume "step (st\<lparr>pendingParams := pp\<rparr>) l = Inr (s\<lparr>pendingParams := pp'\<rparr>)" "step st l = Inr s"
    then show ?thesis using Cons.IH[OF rest, where st=s and pp=pp'] by simp
  qed
qed

lemma step_flushes_pp:
  assumes "flushes f"
  shows "step (st\<lparr>pendingParams := pp\<rparr>) f = step st f"
proof -
  from assms have n: "whenActive st (rx_at subclassAssignRe (trim f)) = None"
    by (simp add: flushes_def whenActive_def)
  from assms n show ?thesis
    by (simp add: flushes_def isFunctionDecl_def step_flush)
qed

lemma parseLines_flush_pp:
  assumes "\<forall>l \<in> set ls. \<not> isFunctionDecl l" "flushes f"
  shows "parseLines (st\<lparr>pendingParams := pp\<rparr>) (ls @ f # rest) = parseLines st (ls @ f # rest)"
  using assms(1)
proof (induction ls arbitrary: st pp)
  case Nil
  show ?case by (simp add: step_flushes_pp[OF assms(2)])
next
  case (Cons l ls)
  then have nf: "\<not> isFunctionDecl l" and rest: "\<forall>l \<in> set ls. \<not> isFunctionDecl l" by simp_all
  from step_pp_cases[OF nf, where st=st and pp=pp] show ?case
  proof (elim disjE exE conjE)
    fix e assume "step (st\<lparr>pendingParams := pp\<rparr>) l = Inl e" "step st l = Inl e"
    then show ?thesis by simp
  next
    fix s pp'
    assume "step (st\<lparr>pendingParams := pp\<rparr>) l = Inr (s\<lparr>pendingParams := pp'\<rparr>)" "step st l = Inr s"
    then show ?thesis using Cons.IH[OF rest, where st=s and pp=pp'] by simp
  qed
qed

lemma doc_not_subclass: "startsWith s ''---'' \<Longrightarrow> rx_at subclassAssignRe s = None"
proof -
  assume "startsWith s ''---''"
  then obtain r where s: "s = CHR ''-'' # r" by (cases s) (auto simp add: startsWith_def)
  have "\<not> inClass [Word] CHR ''-''" by code_simp
  then show ?thesis
    by (simp add: s subclassAssignRe_def seqs_Cons Plus1_def rx_at_def)
qed

lemma param_not_other:
  "startsWith s ''@param'' \<Longrightarrow>
     rx_at typeRe s = None \<and> rx_at aliasRe s = None \<and> rx_at classRe s = None"
  by (simp add: typeRe_def aliasRe_def classRe_def seqs_Cons rx_at_Lit_clash[of s "''@param''"])

lemma step_param:
  assumes "isParamDirective line"
  shows "\<exists>p. step st line = Inr (st\<lparr>pendingParams := pendingParams st @ [p]\<rparr>)"
proof -
  let ?c = "replaceAt docMarkerRe [] (trim line)"
  from assms have d: "startsWith (trim line) ''---''" and m: "rx_at paramRe ?c \<noteq> None"
    by (simp_all add: isParamDirective_def)
  from m obtain pm where pm: "rx_at paramRe ?c = Some pm" by auto
  then have "startsWith ?c ''@param''"
    by (auto simp add: paramRe_def seqs_Cons dest: rx_at_Lit_prefix)
  from param_not_other[OF this] pm
  have "docLine st ?c = Inr (paramDirective st (snd pm))" by (simp add: docLine_def)
  with doc_not_function[OF d] doc_not_subclass[OF d] d
  have "step st line = Inr (paramDirective st (snd pm))"
    by (simp add: step_def Let_def whenActive_def)
  then show ?thesis by (auto simp add: paramDirective_def Let_def)
qed

text \<open>
  C7. A line that is no doc comment and is blank, a plain comment or a \<^verbatim>\<open>_G.\<close> assignment
  leaves \<open>pendingParams\<close>, \<open>pendingReturn\<close> and \<open>currentDescription\<close> as they are. Any other
  line that is no doc comment and no declaration form clears the three and changes nothing
  else. Hence a \<^verbatim>\<open>@param\<close> directive that no function declaration follows contributes
  nothing: up to the end of the input the result is that of the input without the
  directive, and from the next flushing line on the parser is in the very state it would be
  in without it.
\<close>

theorem flush_rule:
  "(\<not> startsWith (trim line) ''---''
      \<and> (trim line = [] \<or> startsWith (trim line) ''--'' \<or> startsWith (trim line) ''_G.'')
     \<longrightarrow> (\<exists>st'. step st line = Inr st' \<and> pendingParams st' = pendingParams st
               \<and> pendingReturn st' = pendingReturn st
               \<and> currentDescription st' = currentDescription st))
   \<and> (flushes line
     \<longrightarrow> step st line
          = Inr (st\<lparr>currentDescription := [], pendingParams := [], pendingReturn := None\<rparr>))
   \<and> (isParamDirective pl \<and> (\<forall>l \<in> set ls. \<not> isFunctionDecl l)
     \<longrightarrow> map_sum id resultOf (parseLines st (pl # ls)) = map_sum id resultOf (parseLines st ls)
         \<and> (flushes f
              \<longrightarrow> parseLines st (pl # ls @ f # rest) = parseLines st (ls @ f # rest)))"
proof (intro conjI impI)
  assume "\<not> startsWith (trim line) ''---''
      \<and> (trim line = [] \<or> startsWith (trim line) ''--'' \<or> startsWith (trim line) ''_G.'')"
  then show "\<exists>st'. step st line = Inr st' \<and> pendingParams st' = pendingParams st
               \<and> pendingReturn st' = pendingReturn st
               \<and> currentDescription st' = currentDescription st"
    using step_noop[of line st] by blast
next
  assume f: "flushes line"
  then have "whenActive st (rx_at subclassAssignRe (trim line)) = None"
    by (simp add: flushes_def whenActive_def)
  with f show "step st line
          = Inr (st\<lparr>currentDescription := [], pendingParams := [], pendingReturn := None\<rparr>)"
    by (simp add: flushes_def isFunctionDecl_def step_flush)
next
  assume a: "isParamDirective pl \<and> (\<forall>l \<in> set ls. \<not> isFunctionDecl l)"
  from step_param[of pl st] a obtain p where
    p: "step st pl = Inr (st\<lparr>pendingParams := pendingParams st @ [p]\<rparr>)" by blast
  from a parseLines_pp[where ls=ls and st=st and pp="pendingParams st @ [p]"] p
  show "map_sum id resultOf (parseLines st (pl # ls)) = map_sum id resultOf (parseLines st ls)"
    by simp
next
  assume a: "isParamDirective pl \<and> (\<forall>l \<in> set ls. \<not> isFunctionDecl l)" and f: "flushes f"
  from step_param[of pl st] a obtain p where
    p: "step st pl = Inr (st\<lparr>pendingParams := pendingParams st @ [p]\<rparr>)" by blast
  from a f parseLines_flush_pp[where ls=ls and f=f and st=st and pp="pendingParams st @ [p]"
      and rest=rest] p
  show "parseLines st (pl # ls @ f # rest) = parseLines st (ls @ f # rest)"
    by simp
qed


text \<open>
  C7, witness: a plain comment, the flushing line \<^verbatim>\<open>local x = 1\<close>, and a \<^verbatim>\<open>@param\<close> directive
  followed by a description line, then flushed before a declaration.
\<close>

theorem flush_rule_witness:
  "\<not> startsWith (trim ''-- a comment'') ''---'' \<and> startsWith (trim ''-- a comment'') ''--''
   \<and> (\<exists>st'. step initialParser ''-- a comment'' = Inr st'
         \<and> pendingParams st' = pendingParams initialParser
         \<and> pendingReturn st' = pendingReturn initialParser
         \<and> currentDescription st' = currentDescription initialParser)
   \<and> flushes ''local x = 1''
   \<and> step initialParser ''local x = 1''
       = Inr (initialParser\<lparr>currentDescription := [], pendingParams := [], pendingReturn := None\<rparr>)
   \<and> isParamDirective ''--- @param x number'' \<and> \<not> isFunctionDecl ''--- some text''
   \<and> map_sum id resultOf (parseLines initialParser [''--- @param x number'', ''--- some text''])
       = map_sum id resultOf (parseLines initialParser [''--- some text''])
   \<and> parseLines initialParser
         [''--- @param x number'', ''--- some text'', ''local x = 1'', ''function foo.bar(x)'']
       = parseLines initialParser [''--- some text'', ''local x = 1'', ''function foo.bar(x)'']"
proof -
  have a: "\<not> startsWith (trim ''-- a comment'') ''---''" by code_simp
  have b: "startsWith (trim ''-- a comment'') ''--''" by code_simp
  have c: "flushes ''local x = 1''" by code_simp
  have d: "isParamDirective ''--- @param x number''" by code_simp
  have e: "\<not> isFunctionDecl ''--- some text''" by code_simp
  note t = flush_rule[where line="''-- a comment''" and st=initialParser
      and pl="''--- @param x number''" and ls="[''--- some text'']" and f="''local x = 1''"
      and rest="[''function foo.bar(x)'']"]
  note u = flush_rule[where line="''local x = 1''" and st=initialParser
      and pl="''--- @param x number''" and ls="[''--- some text'']" and f="''local x = 1''"
      and rest="[''function foo.bar(x)'']"]
  from a b c d e t u show ?thesis by simp
qed

section \<open>The function-type parser\<close>















section \<open>Union types\<close>

subsection \<open>The splitter cuts at depth zero only\<close>

lemma splitTop_parts: "splitTop sep cs parts cur d = parts @ splitTop sep cs [] cur d"
proof (induction cs arbitrary: parts cur d)
  case Nil
  show ?case by simp
next
  case (Cons ch cs)
  have a: "splitTop sep cs (parts @ [trim cur]) [] e = parts @ splitTop sep cs [trim cur] [] e" for e
    using Cons.IH[of "parts @ [trim cur]" "[]" e] Cons.IH[of "[trim cur]" "[]" e] by simp
  show ?case using Cons.IH[of parts] a by simp
qed

lemma splitTop_no_split:
  assumes "\<not> isOpener sep" "\<not> isCloser sep"
    and "\<forall>i < length cs. cs ! i = sep \<longrightarrow> depthFrom d (take i cs) \<noteq> 0"
  shows "splitTop sep cs [] cur d = (if trim (cur @ cs) = [] then [] else [trim (cur @ cs)])"
  using assms(3)
proof (induction cs arbitrary: cur d)
  case Nil
  show ?case by simp
next
  case (Cons ch cs)
  let ?d = "if isOpener ch then d + 1 else if isCloser ch then d - 1 else d"
  from Cons.prems have z: "ch = sep \<longrightarrow> d \<noteq> 0" by fastforce
  have "\<forall>i < length cs. cs ! i = sep \<longrightarrow> depthFrom ?d (take i cs) \<noteq> 0"
  proof (intro allI impI)
    fix i assume "i < length cs" "cs ! i = sep"
    with Cons.prems[rule_format, of "Suc i"] show "depthFrom ?d (take i cs) \<noteq> 0" by simp
  qed
  from Cons.IH[OF this, of "cur @ [ch]"] z assms(1,2) show ?case by auto
qed

lemma splitTop_first_split:
  assumes "\<not> isOpener sep" "\<not> isCloser sep"
    and "i < length cs" "cs ! i = sep" "depthFrom d (take i cs) = 0"
    and "\<forall>j < i. cs ! j = sep \<longrightarrow> depthFrom d (take j cs) \<noteq> 0"
  shows "splitTop sep cs [] cur d = trim (cur @ take i cs) # splitTop sep (drop (Suc i) cs) [] [] 0"
  using assms(3-6)
proof (induction cs arbitrary: i cur d)
  case Nil
  then show ?case by simp
next
  case (Cons ch cs)
  let ?d = "if isOpener ch then d + 1 else if isCloser ch then d - 1 else d"
  show ?case
  proof (cases i)
    case 0
    with Cons.prems have "ch = sep" "d = 0" by simp_all
    with 0 assms(1,2) splitTop_parts[of sep cs "[trim cur]" "[]" 0] show ?thesis by simp
  next
    case (Suc j)
    with Cons.prems have j: "j < length cs" "cs ! j = sep" "depthFrom ?d (take j cs) = 0"
      by simp_all
    from Cons.prems(4) Suc have z: "ch = sep \<longrightarrow> d \<noteq> 0" by fastforce
    have "\<forall>k < j. cs ! k = sep \<longrightarrow> depthFrom ?d (take k cs) \<noteq> 0"
    proof (intro allI impI)
      fix k assume "k < j" "cs ! k = sep"
      with Cons.prems(4)[rule_format, of "Suc k"] Suc show "depthFrom ?d (take k cs) \<noteq> 0" by simp
    qed
    from Cons.IH[OF j this, of "cur @ [ch]"] z Suc assms(1,2) show ?thesis by auto
  qed
qed

lemma bar_not_delimiter: "\<not> isOpener CHR ''|'' \<and> \<not> isCloser CHR ''|''"
  by code_simp

lemma splitUnion_no_bar:
  "(\<forall>i. \<not> topLevelBar s i) \<Longrightarrow> splitUnion s = (if trim s = [] then [] else [trim s])"
  using splitTop_no_split[of "CHR ''|''" s 0 "[]"] bar_not_delimiter
  by (simp add: splitUnion_def topLevelBar_def)

lemma splitUnion_first_bar:
  "topLevelBar s i \<Longrightarrow> (\<forall>j < i. \<not> topLevelBar s j)
   \<Longrightarrow> splitUnion s = trim (take i s) # splitUnion (drop (Suc i) s)"
  using splitTop_first_split[of "CHR ''|''" i s 0 "[]"] bar_not_delimiter
  by (simp add: splitUnion_def topLevelBar_def)

lemma remdups_drop_earlier: "x \<in> set zs \<Longrightarrow> remdups (ys @ x # zs) = remdups (ys @ zs)"
  by (induction ys) auto

lemma uniq_first_occurrences:
  "distinct acc \<Longrightarrow> uniq acc xs = rev (remdups (rev (acc @ xs)))"
proof (induction xs arbitrary: acc)
  case Nil
  then show ?case by (simp add: distinct_remdups_id)
next
  case (Cons x xs)
  show ?case
  proof (cases "x \<in> set acc")
    case True
    then have "remdups (rev xs @ x # rev acc) = remdups (rev xs @ rev acc)"
      by (intro remdups_drop_earlier) simp
    with True Cons show ?thesis by simp
  next
    case False
    with Cons.prems have "distinct (acc @ [x])" by simp
    from Cons.IH[OF this] False show ?thesis by simp
  qed
qed

lemma includesStr_char: "includesStr s [c] \<longleftrightarrow> c \<in> set s"
proof
  assume "includesStr s [c]"
  then obtain i where "occursAt s [c] i"
    by (auto simp add: includesStr_def indexOf_def find_None_iff)
  then have "i < length s" "take 1 (drop i s) = [c]" by (simp_all add: occursAt_def)
  then have "s ! i = c" by (metis hd_drop_conv_nth hd_take list.sel(1) zero_less_one)
  with \<open>i < length s\<close> show "c \<in> set s" by auto
next
  assume "c \<in> set s"
  then obtain i where i: "i < length s" "s ! i = c" by (auto simp add: in_set_conv_nth)
  then have "take 1 (drop i s) = [c]"
    by (metis Cons_nth_drop_Suc One_nat_def take0 take_Suc_Cons)
  with i have "occursAt s [c] i" by (simp add: occursAt_def)
  with i show "includesStr s [c]"
    by (auto simp add: includesStr_def indexOf_def find_None_iff intro!: bexI[of _ i])
qed

lemma split_needs_bar:
  assumes "1 < length (splitUnion s)"
  shows "CHR ''|'' \<in> set s"
proof (rule ccontr)
  assume n: "CHR ''|'' \<notin> set s"
  then have "\<forall>i. \<not> topLevelBar s i" by (metis nth_mem topLevelBar_def)
  from splitUnion_no_bar[OF this] assms show False by (simp split: if_splits)
qed

lemma convert_union:
  assumes "\<not> endsWith (cleanType luaType) ''| nil''" "\<not> endsWith (cleanType luaType) ''|nil''"
    and "1 < length (splitUnion (cleanType luaType))"
  shows "convertLuaTypeToTS luaType =
         join '' | '' (uniq [] (map (\<lambda>p. convertLuaTypeToTS (trim p)) (splitUnion (cleanType luaType))))"
proof -
  let ?l = "cleanType luaType"
  from split_needs_bar[OF assms(3)] have b: "CHR ''|'' \<in> set ?l" .
  then have i: "includesStr ?l ''|''" by (simp add: includesStr_char)
  from b have n: "?l \<noteq> []" "?l \<noteq> ''nil''" "?l \<noteq> ''number''" "?l \<noteq> ''integer''" "?l \<noteq> ''string''"
    "?l \<noteq> ''boolean''" "?l \<noteq> ''any''" "?l \<noteq> ''userdata''" "?l \<noteq> ''table''" "?l \<noteq> ''function''"
    by auto
  from assms have e: "\<not> (endsWith ?l ''| nil'' \<or> endsWith ?l ''|nil'')" by simp
  from n have p: "\<not> (?l = ''number'' \<or> ?l = ''integer'')" by simp
  from i have o: "\<not> (endsWith ?l ''?'' \<and> \<not> includesStr ?l ''|'')" by simp
  from i assms have u: "includesStr ?l ''|'' \<and> 1 < length (splitUnion ?l)" by simp
  show ?thesis
    apply (subst convertLuaTypeToTS.simps)
    apply (unfold Let_def)
    apply (simp only: n e p o u if_False if_True simp_thms)
    done
qed

lemma list_all_upt: "list_all P [0..<n] \<Longrightarrow> \<forall>i < n. P i"
  by (simp add: list_all_iff)

text \<open>
  C5: \<^verbatim>\<open>splitUnion\<close> cuts a type expression at the bars of nesting depth zero and nowhere else: a
  text with no such bar is one part (none when it is blank), and a text whose first such bar is
  at \<open>i\<close> has the trimmed text before \<open>i\<close> as its first part, followed by the parts of the text
  after \<open>i\<close>. When the cleaned type expression does not end in \<^verbatim>\<open>| nil\<close> or \<^verbatim>\<open>|nil\<close> (the nullable rule
  comes first, and itself yields a union with \<^verbatim>\<open>null\<close>) and splits into two or more parts, the
  translation is the translations of the parts, without the duplicates, each kept at its first
  occurrence in the original order, joined by \<^verbatim>\<open> | \<close>. \<^verbatim>\<open>number|number\<close> becomes the single member
  \<^verbatim>\<open>number\<close>, and \<^verbatim>\<open>fun(x: table<string,number>): boolean|nil\<close> is cut after the return type only,
  not at the comma or inside \<^verbatim>\<open>table<...>\<close>.
\<close>

theorem union_translation:
  "((\<forall>i. \<not> topLevelBar s i) \<longrightarrow> splitUnion s = (if trim s = [] then [] else [trim s]))
   \<and> (topLevelBar s i \<and> (\<forall>j < i. \<not> topLevelBar s j) \<longrightarrow>
        splitUnion s = trim (take i s) # splitUnion (drop (Suc i) s))
   \<and> (\<not> endsWith (cleanType luaType) ''| nil'' \<and> \<not> endsWith (cleanType luaType) ''|nil''
        \<and> 1 < length (splitUnion (cleanType luaType)) \<longrightarrow>
        convertLuaTypeToTS luaType =
          join '' | '' (uniq [] (map (\<lambda>p. convertLuaTypeToTS (trim p))
                                     (splitUnion (cleanType luaType)))))
   \<and> uniq [] xs = rev (remdups (rev xs)) \<and> distinct (uniq [] xs) \<and> set (uniq [] xs) = set xs
   \<and> convertLuaTypeToTS ''number|number'' = ''number''
   \<and> splitUnion ''fun(x: table<string,number>): boolean|nil''
       = [''fun(x: table<string,number>): boolean'', ''nil'']
   \<and> convertLuaTypeToTS ''fun(x: table<string,number>): boolean|nil''
       = ''(this: void, x: Record<string, number>) => boolean | null''"
proof -
  have u: "uniq [] xs = rev (remdups (rev xs))"
    using uniq_first_occurrences[of "[]" xs] by simp
  have a: "convertLuaTypeToTS ''number|number'' = ''number''" by code_simp
  have b: "splitUnion ''fun(x: table<string,number>): boolean|nil''
       = [''fun(x: table<string,number>): boolean'', ''nil'']" by code_simp
  have c: "convertLuaTypeToTS ''fun(x: table<string,number>): boolean|nil''
       = ''(this: void, x: Record<string, number>) => boolean | null''" by code_simp
  from u a b c splitUnion_no_bar[of s] splitUnion_first_bar[of s i] convert_union[of luaType]
  show ?thesis by (simp del: One_nat_def)
qed

text \<open>
  C5, witness: \<^verbatim>\<open>table<a|b>\<close> has no bar at depth zero and is one part; the first bar at depth zero
  of \<^verbatim>\<open>x<a|b> | y\<close> is at position 7; \<^verbatim>\<open>string|number|string\<close> has three parts and two members.
\<close>

theorem union_translation_witness:
  "(\<forall>i. \<not> topLevelBar ''table<a|b>'' i) \<and> splitUnion ''table<a|b>'' = [''table<a|b>'']
   \<and> topLevelBar ''x<a|b> | y'' 7 \<and> list_all (\<lambda>j. \<not> topLevelBar ''x<a|b> | y'' j) [0..<7]
   \<and> splitUnion ''x<a|b> | y'' = ''x<a|b>'' # splitUnion '' y''
   \<and> \<not> endsWith (cleanType ''string|number|string'') ''| nil''
   \<and> \<not> endsWith (cleanType ''string|number|string'') ''|nil''
   \<and> 1 < length (splitUnion (cleanType ''string|number|string''))
   \<and> convertLuaTypeToTS ''string|number|string'' = ''string | number''"
proof -
  have n: "\<not> topLevelBar ''table<a|b>'' i" for i
  proof -
    have "list_all (\<lambda>i. \<not> topLevelBar ''table<a|b>'' i) [0..<length ''table<a|b>'']"
      by code_simp
    then have "\<forall>i < length ''table<a|b>''. \<not> topLevelBar ''table<a|b>'' i"
      by (rule list_all_upt)
    then show ?thesis by (cases "i < length ''table<a|b>''") (auto simp add: topLevelBar_def)
  qed
  have t: "trim ''table<a|b>'' = ''table<a|b>''" by code_simp
  have b7: "topLevelBar ''x<a|b> | y'' 7" by code_simp
  have a7: "list_all (\<lambda>j. \<not> topLevelBar ''x<a|b> | y'' j) [0..<7]" by code_simp
  then have l7: "\<forall>j < 7. \<not> topLevelBar ''x<a|b> | y'' j"
    by (rule list_all_upt)
  have t7: "trim (take 7 ''x<a|b> | y'') = ''x<a|b>''" by code_simp
  have d7: "drop (Suc 7) ''x<a|b> | y'' = '' y''" by code_simp
  have e1: "\<not> endsWith (cleanType ''string|number|string'') ''| nil''" by code_simp
  have e2: "\<not> endsWith (cleanType ''string|number|string'') ''|nil''" by code_simp
  have e3: "1 < length (splitUnion (cleanType ''string|number|string''))" by code_simp
  have e4: "join '' | '' (uniq [] (map (\<lambda>p. convertLuaTypeToTS (trim p))
              (splitUnion (cleanType ''string|number|string'')))) = ''string | number''" by code_simp
  note w1 = union_translation[where s="''table<a|b>''" and i=0 and luaType="''string|number|string''"
      and xs="[]::string list"]
  note w2 = union_translation[where s="''x<a|b> | y''" and i=7 and luaType="''string|number|string''"
      and xs="[]::string list"]
  from w1 n t have 1: "splitUnion ''table<a|b>'' = [''table<a|b>'']" by simp
  from w2 b7 l7 t7 d7 have 2: "splitUnion ''x<a|b> | y'' = ''x<a|b>'' # splitUnion '' y''" by simp
  from w1 e1 e2 e3 e4 have 3: "convertLuaTypeToTS ''string|number|string'' = ''string | number''"
    by simp
  from n b7 a7 e1 e2 e3 1 2 3 show ?thesis by (simp only: simp_thms)
qed

section \<open>The result of the annotation parser\<close>

subsection \<open>The parser raises no error\<close>

text \<open>
  Every branch that reads a class has created it before or reads the current class, so the
  \<^verbatim>\<open>TypeError\<close> of a property read on \<^verbatim>\<open>undefined\<close> is never raised.
\<close>

lemma dom_ensureClass: "map_of cs c \<noteq> None \<Longrightarrow> map_of (ensureClass n cs) c \<noteq> None"
  by (simp add: ensureClass_def update_conv')

lemma attachMethod_known:
  assumes "activeClassKnown st"
  shows "\<exists>st'. attachMethod st c m t = Inr st' \<and> activeClassKnown st'"
  using assms map_of_ensureClass[of c "classes st"] dom_ensureClass[of "classes st" _ c]
  by (auto simp add: attachMethod_def Let_def activeClassKnown_def update_conv'
      split: option.splits)

lemma subclassAssign_known:
  assumes "activeClassKnown st"
  shows "\<exists>st'. subclassAssign st m cur = Inr st' \<and> activeClassKnown st'"
  using assms map_of_ensureClass[of "grp m 1" "classes st"]
    dom_ensureClass[of "classes st" _ "grp m 1"]
  by (auto simp add: subclassAssign_def Let_def activeClassKnown_def update_conv'
      split: option.splits)

lemma whenActive_Some:
  "whenActive st m = Some (cur, x) \<Longrightarrow> currentClass st = Some cur \<and> cur \<noteq> [] \<and> m = Some x"
  by (auto simp add: whenActive_def split: option.splits if_splits)

lemma fieldDirective_known:
  assumes "activeClassKnown st" "currentClass st = Some cur" "cur \<noteq> []"
  shows "\<exists>st'. fieldDirective st m cur = Inr st' \<and> activeClassKnown st'"
proof -
  from assms obtain cls where c: "map_of (classes st) cur = Some cls"
    by (auto simp add: activeClassKnown_def)
  then obtain cls' where
    "fieldDirective st m cur
       = Inr (st\<lparr>classes := AList.update cur cls' (classes st), currentDescription := []\<rparr>)"
    unfolding fieldDirective_def Let_def by simp
  with assms(2) show ?thesis by (simp add: activeClassKnown_def update_conv')
qed

lemma indexSigDirective_known:
  assumes "activeClassKnown st" "currentClass st = Some cur" "cur \<noteq> []"
  shows "\<exists>st'. indexSigDirective st m cur = Inr st' \<and> activeClassKnown st'"
  using assms
  by (auto simp add: indexSigDirective_def activeClassKnown_def update_conv')

lemma docLine_known:
  assumes "activeClassKnown st"
  shows "\<exists>st'. docLine st l = Inr st' \<and> activeClassKnown st'"
proof (cases "whenActive st (rx_at indexSigRe l)")
  case None
  note n = this
  show ?thesis
  proof (cases "whenActive st (rx_at fieldRe l)")
    case None
    with n assms map_of_ensureClass show ?thesis
      by (auto simp add: docLine_def paramDirective_def descriptionLine_def Let_def
            activeClassKnown_def dom_ensureClass
          split: option.splits)
  next
    case (Some a)
    obtain cur x where a: "a = (cur, x)" by (cases a)
    from Some a whenActive_Some[of st "rx_at fieldRe l" cur x]
    have "currentClass st = Some cur" "cur \<noteq> []" by simp_all
    from fieldDirective_known[OF assms this, of "snd x"] Some a n assms map_of_ensureClass
    show ?thesis
      by (auto simp add: docLine_def paramDirective_def Let_def
            activeClassKnown_def dom_ensureClass
          split: option.splits)
  qed
next
  case (Some a)
  obtain cur x where a: "a = (cur, x)" by (cases a)
  from Some a whenActive_Some[of st "rx_at indexSigRe l" cur x]
  have "currentClass st = Some cur" "cur \<noteq> []" by simp_all
  from indexSigDirective_known[OF assms this, of "snd x"] Some a assms map_of_ensureClass
  show ?thesis
    by (auto simp add: docLine_def paramDirective_def Let_def
          activeClassKnown_def dom_ensureClass
        split: option.splits)
qed

lemma step_known:
  assumes "activeClassKnown st"
  shows "\<exists>st'. step st line = Inr st' \<and> activeClassKnown st'"
  using assms attachMethod_known[OF assms] subclassAssign_known[OF assms] docLine_known[OF assms]
  by (auto simp add: step_def funcDecl_def funcColon_def Let_def activeClassKnown_def
      split: option.splits prod.splits)

lemma parseLines_known:
  "activeClassKnown st \<Longrightarrow> \<exists>st'. parseLines st ls = Inr st'"
proof (induction ls arbitrary: st)
  case Nil
  then show ?case by simp
next
  case (Cons l ls)
  from step_known[OF Cons.prems, of l] obtain s where "step st l = Inr s" "activeClassKnown s"
    by blast
  with Cons.IH[of s] show ?case by simp
qed

lemma parseApiFile_returns: "\<exists>pr. parseApiFile content = Inr pr"
  using parseLines_known[of initialParser "splitOn CHR 0x0A content"]
  by (auto simp add: parseApiFile_def activeClassKnown_def initialParser_def)

subsection \<open>The names of the classes are distinct\<close>

text \<open>
  \<^verbatim>\<open>classes\<close> is written through \<^verbatim>\<open>Map.set\<close> only, so no name occurs twice in the result.
\<close>

lemma distinct_ensureClass:
  "distinct (map fst cs) \<Longrightarrow> distinct (map fst (ensureClass n cs))"
  by (simp add: ensureClass_def distinct_update)

lemma attachMethod_distinct:
  assumes "attachMethod st c m t = Inr st'" "distinct (map fst (classes st))"
  shows "distinct (map fst (classes st'))"
  using assms distinct_ensureClass[of "classes st" c]
  by (auto simp add: attachMethod_def Let_def distinct_update split: option.splits)

lemma subclassAssign_distinct:
  assumes "subclassAssign st m cur = Inr st'" "distinct (map fst (classes st))"
  shows "distinct (map fst (classes st'))"
  using assms distinct_ensureClass[of "classes st" "grp m 1"]
  by (auto simp add: subclassAssign_def Let_def distinct_update split: option.splits)

lemma fieldDirective_distinct:
  assumes "fieldDirective st m cur = Inr st'" "distinct (map fst (classes st))"
  shows "distinct (map fst (classes st'))"
proof -
  from assms(1) obtain cls' where "classes st' = AList.update cur cls' (classes st)"
    unfolding fieldDirective_def Let_def by (cases "map_of (classes st) cur") auto
  with assms(2) show ?thesis by (simp add: distinct_update)
qed

lemma indexSigDirective_distinct:
  assumes "indexSigDirective st m cur = Inr st'" "distinct (map fst (classes st))"
  shows "distinct (map fst (classes st'))"
  using assms
  by (auto simp add: indexSigDirective_def distinct_update split: option.splits)

lemma docLine_distinct:
  assumes "docLine st l = Inr st'" "distinct (map fst (classes st))"
  shows "distinct (map fst (classes st'))"
  using assms
  by (auto simp add: docLine_def paramDirective_def descriptionLine_def Let_def
        distinct_ensureClass
      dest: fieldDirective_distinct indexSigDirective_distinct
      split: option.splits prod.splits if_splits)

lemma step_distinct:
  assumes "step st line = Inr st'" "distinct (map fst (classes st))"
  shows "distinct (map fst (classes st'))"
  using assms
  by (auto simp add: step_def funcDecl_def funcColon_def Let_def
      dest: attachMethod_distinct subclassAssign_distinct docLine_distinct
      split: option.splits prod.splits if_splits)

lemma parseLines_distinct:
  "parseLines st ls = Inr st' \<Longrightarrow> distinct (map fst (classes st)) \<Longrightarrow>
     distinct (map fst (classes st'))"
proof (induction ls arbitrary: st)
  case Nil
  then show ?case by simp
next
  case (Cons l ls)
  then show ?case by (cases "step st l") (auto dest: step_distinct)
qed

lemma parseApiFile_distinct:
  "parseApiFile content = Inr pr \<Longrightarrow> distinct (map fst (classes pr))"
  by (auto simp add: parseApiFile_def resultOf_def initialParser_def
      dest!: parseLines_distinct split: sum.splits)

section \<open>The declaration emitter\<close>

text \<open>
  The classes of a \<^verbatim>\<open>ParseResult\<close> are a \<^verbatim>\<open>Map\<close>, so their names are distinct; then a class is in
  the set of enum names exactly if it is enum-like.
\<close>

lemma enum_member:
  assumes "distinct (map fst cs)" "e \<in> set cs"
  shows "fst e \<in> set (enumNames cs) \<longleftrightarrow> isEnumLikeClass (snd e)"
proof
  assume "fst e \<in> set (enumNames cs)"
  then obtain e' where e': "e' \<in> set cs" "isEnumLikeClass (snd e')" "fst e' = fst e"
    by (auto simp add: enumNames_def)
  from assms(1) have "inj_on fst (set cs)" by (simp add: distinct_map)
  with e'(1,3) assms(2) have "e' = e" by (auto dest: inj_onD)
  with e'(2) show "isEnumLikeClass (snd e)" by simp
next
  assume "isEnumLikeClass (snd e)"
  with assms(2) show "fst e \<in> set (enumNames cs)" by (force simp add: enumNames_def)
qed

lemma concat_if_filter:
  "concat (map (\<lambda>e. if P e then f e else []) xs) = concat (map f (filter P xs))"
  by (induction xs) simp_all

lemma enumLines_step:
  assumes "distinct (map fst cs)"
  shows "enumLines cs (enumNames cs) = enumsStep cs"
proof -
  have "map (\<lambda>e. if fst e \<in> set (enumNames cs) then generateEnum (fst e) (snd e) @ [[]] else []) cs
      = map (\<lambda>e. if isEnumLikeClass (snd e) then generateEnum (fst e) (snd e) @ [[]] else []) cs"
    by (rule map_cong) (simp_all add: enum_member[OF assms])
  then show ?thesis unfolding enumLines_def enumsStep_def by (simp only: concat_if_filter)
qed

lemma interfaceLines_step:
  assumes "distinct (map fst cs)"
  shows "interfaceLines cs (enumNames cs) = interfacesStep cs"
proof -
  have "map (\<lambda>e. if fst e \<notin> set (enumNames cs)
                  then generateInterface (fst e) (snd e) (enumNames cs) @ [[]] else []) cs
      = map (\<lambda>e. if \<not> isEnumLikeClass (snd e)
                  then generateInterface (fst e) (snd e) (enumNames cs) @ [[]] else []) cs"
    by (rule map_cong) (simp_all add: enum_member[OF assms])
  then show ?thesis unfolding interfaceLines_def interfacesStep_def by (simp only: concat_if_filter)
qed

lemma distinct_filterClasses:
  "distinct (map fst cs) \<Longrightarrow> distinct (map fst (filterClasses cs ps))"
  by (simp add: filterClasses_def distinct_map_filter split: option.splits)

lemma has_class:
  "(\<exists>y. map_of cs d = Some y) \<longleftrightarrow> d \<in> fst ` set cs"
  "map_of cs d = None \<longleftrightarrow> d \<notin> fst ` set cs"
  using map_of_eq_None_iff[of cs d] by auto

lemma binding_steps:
  "globalVarLines config
      (resolveMainExport config (detectedMainExport pr)
         (filterClasses (classes pr) (m_filterClasses config)))
   @ moduleLines modulePath
      (resolveMainExport config (detectedMainExport pr)
         (filterClasses (classes pr) (m_filterClasses config)))
   = (case mainExportBySpec config pr of
        None \<Rightarrow> []
      | Some x \<Rightarrow> (if m_declareGlobalVar config then globalStep x else [])
                  @ moduleStep modulePath x)"
  by (auto simp add: resolveMainExport_def mainExportBySpec_def named_def truthy_def has_class
        globalVarLines_def moduleLines_def globalStep_def moduleStep_def
      split: option.splits)

lemma aliasLines_step: "aliasLines (aliases pr) = aliasesStep pr"
  by (simp add: aliasLines_def aliasesStep_def)

text \<open>
  C6: for a parse result whose classes have distinct names, as the entries of a \<^verbatim>\<open>Map\<close> have,
  \<^verbatim>\<open>generateDeclaration\<close> emits, after the header and in this order, a type declaration for every
  alias, an enumeration for every enum-like class among the filtered ones, an interface for
  every remaining one, then the global binding if \<^verbatim>\<open>declareGlobalVar\<close> is set and a main export is
  resolved, then the module binding if a main export is resolved. The main export is the
  configured one if there is one, else the detected one if it names a class that is present after
  filtering, else none. With no main export the unit is the header and the first three steps.
\<close>

theorem emission_order:
  assumes "distinct (map fst (classes pr))"
  shows "generateDeclaration modulePath config pr = join [CHR 0x0A] (unitBySpec modulePath config pr)
     \<and> (mainExportBySpec config pr = None \<longrightarrow>
          generateDeclaration modulePath config pr
          = join [CHR 0x0A]
              (headerLines config @ aliasesStep pr
               @ enumsStep (filterClasses (classes pr) (m_filterClasses config))
               @ interfacesStep (filterClasses (classes pr) (m_filterClasses config))))"
proof -
  let ?cs = "filterClasses (classes pr) (m_filterClasses config)"
  from assms have d: "distinct (map fst ?cs)" by (rule distinct_filterClasses)
  have "generateDeclaration modulePath config pr = join [CHR 0x0A] (unitBySpec modulePath config pr)"
    unfolding generateDeclaration_def unitBySpec_def Let_def
    by (simp only: enumLines_step[OF d] interfaceLines_step[OF d] aliasLines_step
          binding_steps[of config pr modulePath, symmetric] append_assoc)
  then show ?thesis by (simp add: unitBySpec_def Let_def)
qed

text \<open>
  C6, witness: an alias, an enum-like class and a class with a method. The detected main export
  \<^verbatim>\<open>core\<close> is resolved and gives both bindings; when the filter keeps \<^verbatim>\<open>Mode\<close> only, no main export
  is resolved and the unit ends after the enumeration.
\<close>

theorem emission_order_witness:
  "distinct (map fst (classes \<lparr>classes =
       [(''Mode'', \<lparr>c_name = ''Mode'', c_fields = [],
                    c_dataFields = [\<lparr>d_name = ''FAST'', d_type = ''number'',
                                    d_description = None, d_optional = False\<rparr>],
                    c_indexSignatures = []\<rparr>),
        (''core'', \<lparr>c_name = ''core'',
                    c_fields = [\<lparr>f_name = ''get'', f_type = ''fun(self: core, id: Id): Mode'',
                                f_description = None, f_isMethod = True\<rparr>],
                    c_dataFields = [], c_indexSignatures = []\<rparr>)],
      aliases = [(''Id'', \<lparr>a_name = ''Id'', a_type = ''number''\<rparr>)],
      detectedMainExport = Some ''core''\<rparr>))
   \<and> mainExportBySpec \<lparr>m_file = ''core.lua'', m_mainExport = None, m_filterClasses = None,
      m_declareGlobalVar = True\<rparr> \<lparr>classes =
       [(''Mode'', \<lparr>c_name = ''Mode'', c_fields = [],
                    c_dataFields = [\<lparr>d_name = ''FAST'', d_type = ''number'',
                                    d_description = None, d_optional = False\<rparr>],
                    c_indexSignatures = []\<rparr>),
        (''core'', \<lparr>c_name = ''core'',
                    c_fields = [\<lparr>f_name = ''get'', f_type = ''fun(self: core, id: Id): Mode'',
                                f_description = None, f_isMethod = True\<rparr>],
                    c_dataFields = [], c_indexSignatures = []\<rparr>)],
      aliases = [(''Id'', \<lparr>a_name = ''Id'', a_type = ''number''\<rparr>)],
      detectedMainExport = Some ''core''\<rparr> = Some ''core''
   \<and> generateDeclaration ''core'' \<lparr>m_file = ''core.lua'', m_mainExport = None, m_filterClasses = None,
      m_declareGlobalVar = True\<rparr> \<lparr>classes =
       [(''Mode'', \<lparr>c_name = ''Mode'', c_fields = [],
                    c_dataFields = [\<lparr>d_name = ''FAST'', d_type = ''number'',
                                    d_description = None, d_optional = False\<rparr>],
                    c_indexSignatures = []\<rparr>),
        (''core'', \<lparr>c_name = ''core'',
                    c_fields = [\<lparr>f_name = ''get'', f_type = ''fun(self: core, id: Id): Mode'',
                                f_description = None, f_isMethod = True\<rparr>],
                    c_dataFields = [], c_indexSignatures = []\<rparr>)],
      aliases = [(''Id'', \<lparr>a_name = ''Id'', a_type = ''number''\<rparr>)],
      detectedMainExport = Some ''core''\<rparr>
       = join [CHR 0x0A]
           [''// Auto-generated from Sylvanas API'', ''// Source: core.lua'',
            ''// Do not edit manually'', [], ''type Id = number;'', [],
            ''declare enum Mode {'', ''  FAST,'', ''}'', [],
            ''interface core {'', ''  get(this: core, id: Id): Mode;'', ''}'', [],
            ''// Global variable declaration'', ''declare const core: core;'', [],
            ''// Module declaration for imports'',
            ''declare module '' @ [CHR 0x22] @ ''core'' @ [CHR 0x22] @ '' {'',
            ''  const _default: core;'', ''  export = _default;'', ''}'', []]
   \<and> mainExportBySpec \<lparr>m_file = ''core.lua'', m_mainExport = None, m_filterClasses = Some [''Mode''],
      m_declareGlobalVar = True\<rparr> \<lparr>classes =
       [(''Mode'', \<lparr>c_name = ''Mode'', c_fields = [],
                    c_dataFields = [\<lparr>d_name = ''FAST'', d_type = ''number'',
                                    d_description = None, d_optional = False\<rparr>],
                    c_indexSignatures = []\<rparr>),
        (''core'', \<lparr>c_name = ''core'',
                    c_fields = [\<lparr>f_name = ''get'', f_type = ''fun(self: core, id: Id): Mode'',
                                f_description = None, f_isMethod = True\<rparr>],
                    c_dataFields = [], c_indexSignatures = []\<rparr>)],
      aliases = [(''Id'', \<lparr>a_name = ''Id'', a_type = ''number''\<rparr>)],
      detectedMainExport = Some ''core''\<rparr> = None
   \<and> generateDeclaration ''core'' \<lparr>m_file = ''core.lua'', m_mainExport = None, m_filterClasses = Some [''Mode''],
      m_declareGlobalVar = True\<rparr> \<lparr>classes =
       [(''Mode'', \<lparr>c_name = ''Mode'', c_fields = [],
                    c_dataFields = [\<lparr>d_name = ''FAST'', d_type = ''number'',
                                    d_description = None, d_optional = False\<rparr>],
                    c_indexSignatures = []\<rparr>),
        (''core'', \<lparr>c_name = ''core'',
                    c_fields = [\<lparr>f_name = ''get'', f_type = ''fun(self: core, id: Id): Mode'',
                                f_description = None, f_isMethod = True\<rparr>],
                    c_dataFields = [], c_indexSignatures = []\<rparr>)],
      aliases = [(''Id'', \<lparr>a_name = ''Id'', a_type = ''number''\<rparr>)],
      detectedMainExport = Some ''core''\<rparr>
       = join [CHR 0x0A]
           [''// Auto-generated from Sylvanas API'', ''// Source: core.lua'',
            ''// Do not edit manually'', [], ''type Id = number;'', [],
            ''declare enum Mode {'', ''  FAST,'', ''}'', []]"
proof -
  let ?pr = "\<lparr>classes =
       [(''Mode'', \<lparr>c_name = ''Mode'', c_fields = [],
                    c_dataFields = [\<lparr>d_name = ''FAST'', d_type = ''number'',
                                    d_description = None, d_optional = False\<rparr>],
                    c_indexSignatures = []\<rparr>),
        (''core'', \<lparr>c_name = ''core'',
                    c_fields = [\<lparr>f_name = ''get'', f_type = ''fun(self: core, id: Id): Mode'',
                                f_description = None, f_isMethod = True\<rparr>],
                    c_dataFields = [], c_indexSignatures = []\<rparr>)],
      aliases = [(''Id'', \<lparr>a_name = ''Id'', a_type = ''number''\<rparr>)],
      detectedMainExport = Some ''core''\<rparr>"
  let ?c1 = "\<lparr>m_file = ''core.lua'', m_mainExport = None, m_filterClasses = None,
      m_declareGlobalVar = True\<rparr>"
  let ?c2 = "\<lparr>m_file = ''core.lua'', m_mainExport = None, m_filterClasses = Some [''Mode''],
      m_declareGlobalVar = True\<rparr>"
  have d: "distinct (map fst (classes ?pr))" by code_simp
  have m1: "mainExportBySpec ?c1 ?pr = Some ''core''" by code_simp
  have m2: "mainExportBySpec ?c2 ?pr = None" by code_simp
  have u1: "unitBySpec ''core'' ?c1 ?pr =
           [''// Auto-generated from Sylvanas API'', ''// Source: core.lua'',
            ''// Do not edit manually'', [], ''type Id = number;'', [],
            ''declare enum Mode {'', ''  FAST,'', ''}'', [],
            ''interface core {'', ''  get(this: core, id: Id): Mode;'', ''}'', [],
            ''// Global variable declaration'', ''declare const core: core;'', [],
            ''// Module declaration for imports'',
            ''declare module '' @ [CHR 0x22] @ ''core'' @ [CHR 0x22] @ '' {'',
            ''  const _default: core;'', ''  export = _default;'', ''}'', []]" by code_simp
  have u2: "headerLines ?c2 @ aliasesStep ?pr
            @ enumsStep (filterClasses (classes ?pr) (m_filterClasses ?c2))
            @ interfacesStep (filterClasses (classes ?pr) (m_filterClasses ?c2)) =
           [''// Auto-generated from Sylvanas API'', ''// Source: core.lua'',
            ''// Do not edit manually'', [], ''type Id = number;'', [],
            ''declare enum Mode {'', ''  FAST,'', ''}'', []]" by code_simp
  from emission_order[OF d, of "''core''" ?c1] u1
  have 1: "generateDeclaration ''core'' ?c1 ?pr = join [CHR 0x0A]
           [''// Auto-generated from Sylvanas API'', ''// Source: core.lua'',
            ''// Do not edit manually'', [], ''type Id = number;'', [],
            ''declare enum Mode {'', ''  FAST,'', ''}'', [],
            ''interface core {'', ''  get(this: core, id: Id): Mode;'', ''}'', [],
            ''// Global variable declaration'', ''declare const core: core;'', [],
            ''// Module declaration for imports'',
            ''declare module '' @ [CHR 0x22] @ ''core'' @ [CHR 0x22] @ '' {'',
            ''  const _default: core;'', ''  export = _default;'', ''}'', []]" by (simp only:)
  from emission_order[OF d, of "''core''" ?c2] m2
  have "generateDeclaration ''core'' ?c2 ?pr = join [CHR 0x0A]
          (headerLines ?c2 @ aliasesStep ?pr
            @ enumsStep (filterClasses (classes ?pr) (m_filterClasses ?c2))
            @ interfacesStep (filterClasses (classes ?pr) (m_filterClasses ?c2)))" by blast
  with u2
  have 2: "generateDeclaration ''core'' ?c2 ?pr = join [CHR 0x0A]
           [''// Auto-generated from Sylvanas API'', ''// Source: core.lua'',
            ''// Do not edit manually'', [], ''type Id = number;'', [],
            ''declare enum Mode {'', ''  FAST,'', ''}'', []]" by (simp only:)
  from d m1 m2 1 2 show ?thesis by (simp only: simp_thms)
qed

end
